theory Spec2Isabelle
  imports Complex_Main
begin

section \<open>Schema of the migration\<close>

text \<open>
  The enumerated types of the migration
  (\<^verbatim>\<open>CREATE TYPE public.lead_status\<close>, \<^verbatim>\<open>lead_source\<close>, \<^verbatim>\<open>app_role\<close>).
\<close>

datatype lead_status = New | Contacted | Qualified | Not_qualified | Closed

datatype lead_source = Website | Referral | Social_media | Cold_call | Email_campaign | Other

datatype app_role = Admin | Agent | Viewer

text \<open>
  Identities (\<^verbatim>\<open>UUID\<close>) are numbers; a \<^verbatim>\<open>TIMESTAMP WITH TIME ZONE\<close> is a number of
  microseconds. A column value is an \<open>option\<close>, \<open>None\<close> being SQL's NULL; the
  \<^verbatim>\<open>NOT NULL\<close> and \<^verbatim>\<open>CHECK\<close> constraints are checked when a row is written
  (\<open>check_constraints\<close> below). A \<^verbatim>\<open>DECIMAL\<close> column holds a rational.
\<close>

type_synonym uuid = nat
type_synonym timestamptz = nat

record profile =
  p_id :: uuid
  p_user_id :: uuid
  p_full_name :: "string option"
  p_role :: "app_role option"

record buyer_lead =
  bl_id :: uuid
  created_by :: "uuid option"
  assigned_to :: "uuid option"
  first_name :: "string option"
  last_name :: "string option"
  email :: "string option"
  phone :: "string option"
  budget_min :: "rat option"
  budget_max :: "rat option"
  preferred_areas :: "string list option"
  property_type :: "string option"
  bedrooms :: "int option"
  bathrooms :: "rat option"
  status :: "lead_status option"
  source :: "lead_source option"
  priority :: "int option"
  bl_notes :: "string option"
  last_contacted :: "timestamptz option"
  next_follow_up :: "timestamptz option"
  created_at :: "timestamptz option"
  updated_at :: "timestamptz option"

record lead_activity =
  la_id :: uuid
  lead_id :: uuid
  la_user_id :: "uuid option"
  activity_type :: string
  description :: string
  la_created_at :: "timestamptz option"

record database =
  profiles :: "profile list"
  buyer_leads :: "buyer_lead list"
  lead_activities :: "lead_activity list"

section \<open>SQL's three-valued logic\<close>

text \<open>
  A policy expression evaluates to true, false or NULL (\<open>None\<close>); a row passes a policy
  only when the expression is true.
\<close>

definition sql_eq :: "'a option \<Rightarrow> 'a option \<Rightarrow> bool option" where
  "sql_eq a b = (case a of None \<Rightarrow> None | Some x \<Rightarrow> (case b of None \<Rightarrow> None | Some y \<Rightarrow> Some (x = y)))"

fun sql_or :: "bool option \<Rightarrow> bool option \<Rightarrow> bool option" where
  "sql_or (Some True) b = Some True"
| "sql_or a (Some True) = Some True"
| "sql_or (Some False) (Some False) = Some False"
| "sql_or a b = None"

fun sql_and :: "bool option \<Rightarrow> bool option \<Rightarrow> bool option" where
  "sql_and (Some False) b = Some False"
| "sql_and a (Some False) = Some False"
| "sql_and (Some True) (Some True) = Some True"
| "sql_and a b = None"

text \<open>\<^verbatim>\<open>x IN (v1, ..., vn)\<close> is \<^verbatim>\<open>x = v1 OR ... OR x = vn\<close>.\<close>

fun sql_in :: "'a option \<Rightarrow> 'a list \<Rightarrow> bool option" where
  "sql_in x [] = Some False"
| "sql_in x (v # vs) = sql_or (sql_eq x (Some v)) (sql_in x vs)"

definition is_true :: "bool option \<Rightarrow> bool" where
  "is_true b = (b = Some True)"

section \<open>Role resolution\<close>

text \<open>
  \<^verbatim>\<open>get_user_role(user_id)\<close>: \<^verbatim>\<open>SELECT role FROM public.profiles WHERE user_id = $1\<close>.
  The function is SECURITY DEFINER, so the policies of \<^verbatim>\<open>profiles\<close> do not filter it.
  No matching row gives NULL; \<^verbatim>\<open>user_id\<close> is UNIQUE, so at most one row matches.
\<close>

definition get_user_role :: "profile list \<Rightarrow> uuid option \<Rightarrow> app_role option" where
  "get_user_role ps u =
     (case filter (\<lambda>p. is_true (sql_eq (Some (p_user_id p)) u)) ps of
        [] \<Rightarrow> None
      | p # _ \<Rightarrow> p_role p)"

section \<open>Row-level policies of \<^verbatim>\<open>buyer_leads\<close>\<close>

text \<open>
  Each definition is the expression of one \<^verbatim>\<open>CREATE POLICY\<close>; \<open>ps\<close> is the
  \<^verbatim>\<open>profiles\<close> table and \<open>uid\<close> is \<^verbatim>\<open>auth.uid()\<close> (NULL for an anonymous caller).
\<close>

definition admins_can_do_everything :: "profile list \<Rightarrow> uuid option \<Rightarrow> buyer_lead \<Rightarrow> bool option" where
  "admins_can_do_everything ps uid bl = sql_eq (get_user_role ps uid) (Some Admin)"

definition agents_can_view_all_leads :: "profile list \<Rightarrow> uuid option \<Rightarrow> buyer_lead \<Rightarrow> bool option" where
  "agents_can_view_all_leads ps uid bl = sql_in (get_user_role ps uid) [Admin, Agent, Viewer]"

definition agents_can_create_leads :: "profile list \<Rightarrow> uuid option \<Rightarrow> buyer_lead \<Rightarrow> bool option" where
  "agents_can_create_leads ps uid bl = sql_in (get_user_role ps uid) [Admin, Agent]"

definition agents_can_update_leads :: "profile list \<Rightarrow> uuid option \<Rightarrow> buyer_lead \<Rightarrow> bool option" where
  "agents_can_update_leads ps uid bl =
     sql_or (sql_or (sql_eq (get_user_role ps uid) (Some Admin))
                    (sql_eq (created_by bl) uid))
            (sql_eq (assigned_to bl) uid)"

definition only_admins_can_delete :: "profile list \<Rightarrow> uuid option \<Rightarrow> buyer_lead \<Rightarrow> bool option" where
  "only_admins_can_delete ps uid bl = sql_eq (get_user_role ps uid) (Some Admin)"

text \<open>
  All policies are permissive, so the policies that apply to a command are joined with OR.
  The \<^verbatim>\<open>FOR ALL\<close> policy applies to every command. A policy with a \<^verbatim>\<open>USING\<close> clause
  and no \<^verbatim>\<open>WITH CHECK\<close> clause checks new rows with its \<^verbatim>\<open>USING\<close> expression.
  An UPDATE needs the \<^verbatim>\<open>USING\<close> expressions on the existing row and the check
  expressions on the row as updated.
\<close>

definition lead_select_allowed :: "profile list \<Rightarrow> uuid option \<Rightarrow> buyer_lead \<Rightarrow> bool" where
  "lead_select_allowed ps uid bl =
     is_true (sql_or (admins_can_do_everything ps uid bl) (agents_can_view_all_leads ps uid bl))"

definition lead_insert_allowed :: "profile list \<Rightarrow> uuid option \<Rightarrow> buyer_lead \<Rightarrow> bool" where
  "lead_insert_allowed ps uid bl =
     is_true (sql_or (admins_can_do_everything ps uid bl) (agents_can_create_leads ps uid bl))"

definition lead_update_using :: "profile list \<Rightarrow> uuid option \<Rightarrow> buyer_lead \<Rightarrow> bool" where
  "lead_update_using ps uid bl =
     is_true (sql_or (admins_can_do_everything ps uid bl) (agents_can_update_leads ps uid bl))"

definition lead_update_allowed :: "profile list \<Rightarrow> uuid option \<Rightarrow> buyer_lead \<Rightarrow> buyer_lead \<Rightarrow> bool" where
  "lead_update_allowed ps uid old_row new_row =
     (lead_update_using ps uid old_row \<and> lead_update_using ps uid new_row)"

definition lead_delete_allowed :: "profile list \<Rightarrow> uuid option \<Rightarrow> buyer_lead \<Rightarrow> bool" where
  "lead_delete_allowed ps uid bl =
     is_true (sql_or (admins_can_do_everything ps uid bl) (only_admins_can_delete ps uid bl))"

section \<open>Row-level policies of \<^verbatim>\<open>lead_activities\<close>\<close>

text \<open>
  \<^verbatim>\<open>EXISTS (SELECT 1 FROM public.buyer_leads bl WHERE bl.id = lead_activities.lead_id
  AND (get_user_role(auth.uid()) = 'admin' OR bl.created_by = auth.uid()
  OR bl.assigned_to = auth.uid()))\<close>.
  The sub-select runs as the caller, so it sees the rows of \<^verbatim>\<open>buyer_leads\<close> that the
  caller may select.
\<close>

definition activity_lead_accessible :: "profile list \<Rightarrow> uuid option \<Rightarrow> lead_activity \<Rightarrow> buyer_lead \<Rightarrow> bool option" where
  "activity_lead_accessible ps uid la bl =
     sql_and (sql_eq (Some (bl_id bl)) (Some (lead_id la)))
             (sql_or (sql_or (sql_eq (get_user_role ps uid) (Some Admin))
                             (sql_eq (created_by bl) uid))
                     (sql_eq (assigned_to bl) uid))"

definition activity_select_allowed :: "database \<Rightarrow> uuid option \<Rightarrow> lead_activity \<Rightarrow> bool" where
  "activity_select_allowed db uid la =
     (filter (\<lambda>bl. is_true (activity_lead_accessible (profiles db) uid la bl))
        (filter (lead_select_allowed (profiles db) uid) (buyer_leads db)) \<noteq> [])"

definition activity_insert_allowed :: "database \<Rightarrow> uuid option \<Rightarrow> lead_activity \<Rightarrow> bool" where
  "activity_insert_allowed db uid la =
     (filter (\<lambda>bl. is_true (activity_lead_accessible (profiles db) uid la bl))
        (filter (lead_select_allowed (profiles db) uid) (buyer_leads db)) \<noteq> [])"

section \<open>Writing rows of \<^verbatim>\<open>buyer_leads\<close>\<close>

text \<open>
  A column of an INSERT or of the SET list of an UPDATE is left out, set to NULL, or given
  a value. Values arrive as the JSON of the request: text for the text and enum columns,
  numbers for the numeric ones.
\<close>

datatype 'a col = Omitted | Null | Val 'a

record lead_request =
  q_created_by :: "uuid col"
  q_assigned_to :: "uuid col"
  q_first_name :: "string col"
  q_last_name :: "string col"
  q_email :: "string col"
  q_phone :: "string col"
  q_budget_min :: "rat col"
  q_budget_max :: "rat col"
  q_preferred_areas :: "string list col"
  q_property_type :: "string col"
  q_bedrooms :: "int col"
  q_bathrooms :: "rat col"
  q_status :: "string col"
  q_source :: "string col"
  q_priority :: "int col"
  q_notes :: "string col"
  q_last_contacted :: "timestamptz col"
  q_next_follow_up :: "timestamptz col"

datatype db_error =
    Invalid_enum_value
  | Integer_out_of_range
  | Numeric_field_overflow
  | Row_level_security_violation
  | Not_null_violation
  | Check_violation

text \<open>The labels of the enums, as written in the \<^verbatim>\<open>CREATE TYPE\<close> statements.\<close>

fun lead_status_text :: "lead_status \<Rightarrow> string" where
  "lead_status_text New = ''new''"
| "lead_status_text Contacted = ''contacted''"
| "lead_status_text Qualified = ''qualified''"
| "lead_status_text Not_qualified = ''not_qualified''"
| "lead_status_text Closed = ''closed''"

fun lead_source_text :: "lead_source \<Rightarrow> string" where
  "lead_source_text Website = ''website''"
| "lead_source_text Referral = ''referral''"
| "lead_source_text Social_media = ''social_media''"
| "lead_source_text Cold_call = ''cold_call''"
| "lead_source_text Email_campaign = ''email_campaign''"
| "lead_source_text Other = ''other''"

text \<open>Input of a column value: a text that is no label of the enum is an error.\<close>

definition lead_status_in :: "string \<Rightarrow> lead_status option" where
  "lead_status_in s =
     (if s = ''new'' then Some New
      else if s = ''contacted'' then Some Contacted
      else if s = ''qualified'' then Some Qualified
      else if s = ''not_qualified'' then Some Not_qualified
      else if s = ''closed'' then Some Closed
      else None)"

definition lead_source_in :: "string \<Rightarrow> lead_source option" where
  "lead_source_in s =
     (if s = ''website'' then Some Website
      else if s = ''referral'' then Some Referral
      else if s = ''social_media'' then Some Social_media
      else if s = ''cold_call'' then Some Cold_call
      else if s = ''email_campaign'' then Some Email_campaign
      else if s = ''other'' then Some Other
      else None)"

text \<open>\<^verbatim>\<open>INTEGER\<close> is a signed 32-bit integer.\<close>

definition int4_in :: "int \<Rightarrow> int option" where
  "int4_in n = (if - 2147483648 \<le> n \<and> n \<le> 2147483647 then Some n else None)"

text \<open>
  \<^verbatim>\<open>DECIMAL(p,s)\<close> rounds to \<open>s\<close> fractional digits, ties away from zero, and then
  takes at most \<open>p - s\<close> digits before the point.
\<close>

definition round_scale :: "nat \<Rightarrow> rat \<Rightarrow> rat" where
  "round_scale s x = sgn x * of_int \<lfloor>\<bar>x\<bar> * 10 ^ s + 1 / 2\<rfloor> / 10 ^ s"

definition numeric_in :: "nat \<Rightarrow> nat \<Rightarrow> rat \<Rightarrow> rat option" where
  "numeric_in p s x =
     (let r = round_scale s x in if \<bar>r\<bar> < 10 ^ (p - s) then Some r else None)"

text \<open>
  One column of the statement: \<open>keep\<close> is what the column holds when the statement leaves
  it out (the column's default for an INSERT, the old value for an UPDATE).
\<close>

fun col_in :: "('a \<Rightarrow> 'b option) \<Rightarrow> db_error \<Rightarrow> 'a col \<Rightarrow> 'b option \<Rightarrow> db_error + 'b option" where
  "col_in conv e Omitted keep = Inr keep"
| "col_in conv e Null keep = Inr None"
| "col_in conv e (Val v) keep = (case conv v of None \<Rightarrow> Inl e | Some w \<Rightarrow> Inr (Some w))"

fun col_set :: "'a col \<Rightarrow> 'a option \<Rightarrow> 'a option" where
  "col_set Omitted keep = keep"
| "col_set Null keep = None"
| "col_set (Val v) keep = Some v"

definition assign_columns :: "lead_request \<Rightarrow> buyer_lead \<Rightarrow> db_error + buyer_lead" where
  "assign_columns q bl =
     (case col_in (numeric_in 12 2) Numeric_field_overflow (q_budget_min q) (budget_min bl) of
        Inl e \<Rightarrow> Inl e
      | Inr bmin \<Rightarrow>
     (case col_in (numeric_in 12 2) Numeric_field_overflow (q_budget_max q) (budget_max bl) of
        Inl e \<Rightarrow> Inl e
      | Inr bmax \<Rightarrow>
     (case col_in int4_in Integer_out_of_range (q_bedrooms q) (bedrooms bl) of
        Inl e \<Rightarrow> Inl e
      | Inr beds \<Rightarrow>
     (case col_in (numeric_in 3 1) Numeric_field_overflow (q_bathrooms q) (bathrooms bl) of
        Inl e \<Rightarrow> Inl e
      | Inr baths \<Rightarrow>
     (case col_in lead_status_in Invalid_enum_value (q_status q) (status bl) of
        Inl e \<Rightarrow> Inl e
      | Inr st \<Rightarrow>
     (case col_in lead_source_in Invalid_enum_value (q_source q) (source bl) of
        Inl e \<Rightarrow> Inl e
      | Inr src \<Rightarrow>
     (case col_in int4_in Integer_out_of_range (q_priority q) (priority bl) of
        Inl e \<Rightarrow> Inl e
      | Inr prio \<Rightarrow>
        Inr (bl\<lparr>created_by := col_set (q_created_by q) (created_by bl),
                 assigned_to := col_set (q_assigned_to q) (assigned_to bl),
                 first_name := col_set (q_first_name q) (first_name bl),
                 last_name := col_set (q_last_name q) (last_name bl),
                 email := col_set (q_email q) (email bl),
                 phone := col_set (q_phone q) (phone bl),
                 budget_min := bmin,
                 budget_max := bmax,
                 preferred_areas := col_set (q_preferred_areas q) (preferred_areas bl),
                 property_type := col_set (q_property_type q) (property_type bl),
                 bedrooms := beds,
                 bathrooms := baths,
                 status := st,
                 source := src,
                 priority := prio,
                 bl_notes := col_set (q_notes q) (bl_notes bl),
                 last_contacted := col_set (q_last_contacted q) (last_contacted bl),
                 next_follow_up := col_set (q_next_follow_up q) (next_follow_up bl)\<rparr>))))))))"

text \<open>
  The constraints of the table: \<^verbatim>\<open>NOT NULL\<close> on the three name columns and
  \<^verbatim>\<open>CHECK (priority >= 1 AND priority <= 5)\<close>. A CHECK fails only when its expression
  is false; it passes when the expression is NULL.
\<close>

definition sql_le :: "int option \<Rightarrow> int option \<Rightarrow> bool option" where
  "sql_le a b = (case a of None \<Rightarrow> None | Some x \<Rightarrow> (case b of None \<Rightarrow> None | Some y \<Rightarrow> Some (x \<le> y)))"

definition priority_check :: "buyer_lead \<Rightarrow> bool option" where
  "priority_check bl = sql_and (sql_le (Some 1) (priority bl)) (sql_le (priority bl) (Some 5))"

definition check_constraints :: "buyer_lead \<Rightarrow> db_error option" where
  "check_constraints bl =
     (if first_name bl = None \<or> last_name bl = None \<or> email bl = None then Some Not_null_violation
      else if priority_check bl = Some False then Some Check_violation
      else None)"

text \<open>
  The row an INSERT starts from: every column at its default. \<^verbatim>\<open>gen_random_uuid()\<close> is
  an identifier that no row of the table has.
\<close>

definition gen_random_uuid :: "buyer_lead list \<Rightarrow> uuid" where
  "gen_random_uuid bls = Suc (foldr max (map bl_id bls) 0)"

definition default_row :: "uuid \<Rightarrow> timestamptz \<Rightarrow> buyer_lead" where
  "default_row i now =
     \<lparr>bl_id = i, created_by = None, assigned_to = None,
      first_name = None, last_name = None, email = None, phone = None,
      budget_min = None, budget_max = None, preferred_areas = None, property_type = None,
      bedrooms = None, bathrooms = None, status = Some New, source = Some Website,
      priority = Some 3, bl_notes = None, last_contacted = None, next_follow_up = None,
      created_at = Some now, updated_at = Some now\<rparr>"

text \<open>
  \<^verbatim>\<open>INSERT INTO buyer_leads\<close> by the caller \<open>uid\<close> at server time \<open>now\<close>: the values are
  read, the policies check the new row, then the constraints do. The references to
  \<^verbatim>\<open>auth.users\<close> are not modelled: an identity a row names is taken to exist.
\<close>

definition insert_buyer_lead :: "uuid option \<Rightarrow> timestamptz \<Rightarrow> lead_request \<Rightarrow> database \<Rightarrow> db_error + database" where
  "insert_buyer_lead uid now q db =
     (case assign_columns q (default_row (gen_random_uuid (buyer_leads db)) now) of
        Inl e \<Rightarrow> Inl e
      | Inr bl \<Rightarrow>
          if \<not> lead_insert_allowed (profiles db) uid bl then Inl Row_level_security_violation
          else (case check_constraints bl of
                  Some e \<Rightarrow> Inl e
                | None \<Rightarrow> Inr (db\<lparr>buyer_leads := buyer_leads db @ [bl]\<rparr>)))"

text \<open>
  \<^verbatim>\<open>UPDATE buyer_leads SET ... WHERE id = target\<close>. The statement touches the rows with
  that id which the caller may select and which pass the \<^verbatim>\<open>USING\<close> expressions; the
  trigger \<^verbatim>\<open>update_buyer_leads_updated_at\<close> sets \<^verbatim>\<open>updated_at\<close> before the row as
  updated is checked by the policies and the constraints. The values of the request are
  read when a row is reached: a statement that reaches no row changes nothing and reports
  no error, whatever its values. An error leaves the table as it was.
\<close>

definition update_reaches :: "profile list \<Rightarrow> uuid option \<Rightarrow> uuid \<Rightarrow> buyer_lead \<Rightarrow> bool" where
  "update_reaches ps uid target bl =
     (bl_id bl = target \<and> lead_select_allowed ps uid bl \<and> lead_update_using ps uid bl)"

definition update_updated_at_column :: "timestamptz \<Rightarrow> buyer_lead \<Rightarrow> buyer_lead" where
  "update_updated_at_column now bl = bl\<lparr>updated_at := Some now\<rparr>"

definition update_row :: "profile list \<Rightarrow> uuid option \<Rightarrow> timestamptz \<Rightarrow> lead_request \<Rightarrow> buyer_lead \<Rightarrow> db_error + buyer_lead" where
  "update_row ps uid now q old_row =
     (case assign_columns q old_row of
        Inl e \<Rightarrow> Inl e
      | Inr assigned \<Rightarrow>
          let new_row = update_updated_at_column now assigned in
          if \<not> lead_update_using ps uid new_row then Inl Row_level_security_violation
          else (case check_constraints new_row of
                  Some e \<Rightarrow> Inl e
                | None \<Rightarrow> Inr new_row))"

fun update_rows :: "profile list \<Rightarrow> uuid option \<Rightarrow> timestamptz \<Rightarrow> uuid \<Rightarrow> lead_request \<Rightarrow> buyer_lead list \<Rightarrow> db_error + buyer_lead list" where
  "update_rows ps uid now target q [] = Inr []"
| "update_rows ps uid now target q (bl # bls) =
     (if update_reaches ps uid target bl
      then (case update_row ps uid now q bl of
              Inl e \<Rightarrow> Inl e
            | Inr bl' \<Rightarrow>
                (case update_rows ps uid now target q bls of
                   Inl e \<Rightarrow> Inl e
                 | Inr bls' \<Rightarrow> Inr (bl' # bls')))
      else (case update_rows ps uid now target q bls of
              Inl e \<Rightarrow> Inl e
            | Inr bls' \<Rightarrow> Inr (bl # bls')))"

definition update_buyer_lead :: "uuid option \<Rightarrow> timestamptz \<Rightarrow> uuid \<Rightarrow> lead_request \<Rightarrow> database \<Rightarrow> db_error + database" where
  "update_buyer_lead uid now target q db =
     (case update_rows (profiles db) uid now target q (buyer_leads db) of
        Inl e \<Rightarrow> Inl e
      | Inr bls \<Rightarrow> Inr (db\<lparr>buyer_leads := bls\<rparr>))"

section \<open>Strings of the client\<close>

text \<open>
  A string is a list of code units; the model covers the code units below 256. The white
  space of \<^verbatim>\<open>trim\<close> and of the regular expression \<^verbatim>\<open>\s\<close> is, in that range, tab,
  line feed, vertical tab, form feed, carriage return, space and no-break space.
\<close>

definition is_space :: "char \<Rightarrow> bool" where
  "is_space c = (c \<in> set [CHR 0x09, CHR 0x0A, CHR 0x0B, CHR 0x0C, CHR 0x0D, CHR 0x20, CHR 0xA0])"

definition trim :: "string \<Rightarrow> string" where
  "trim s = rev (dropWhile is_space (rev (dropWhile is_space s)))"

text \<open>\<^verbatim>\<open>s.split(c)\<close> for a separator of one character: the pieces between the separators.\<close>

fun split :: "char \<Rightarrow> string \<Rightarrow> string list" where
  "split c [] = [[]]"
| "split c (x # xs) =
     (if x = c then [] # split c xs
      else (case split c xs of
              [] \<Rightarrow> [[x]]
            | piece # pieces \<Rightarrow> (x # piece) # pieces))"

text \<open>\<^verbatim>\<open>xs.join(sep)\<close> on strings.\<close>

fun join :: "string \<Rightarrow> string list \<Rightarrow> string" where
  "join sep [] = []"
| "join sep [x] = x"
| "join sep (x # y # ys) = x @ sep @ join sep (y # ys)"

text \<open>
  \<^verbatim>\<open>toLowerCase\<close> on the code units below 256: the letters A to Z, and the capital
  letters of Latin-1 (0xC0 to 0xDE, the multiplication sign 0xD7 apart).
\<close>

definition lower_char :: "char \<Rightarrow> char" where
  "lower_char c =
     (let n = of_char c :: nat in
      if (65 \<le> n \<and> n \<le> 90) \<or> (192 \<le> n \<and> n \<le> 222 \<and> n \<noteq> 215) then char_of (n + 32) else c)"

definition toLowerCase :: "string \<Rightarrow> string" where
  "toLowerCase s = map lower_char s"

text \<open>\<^verbatim>\<open>s.replace(/\s+/g, '_')\<close>: every maximal run of white space becomes one underscore.\<close>

fun replace_spaces :: "bool \<Rightarrow> string \<Rightarrow> string" where
  "replace_spaces in_run [] = []"
| "replace_spaces in_run (c # cs) =
     (if is_space c then (if in_run then replace_spaces True cs else CHR ''_'' # replace_spaces True cs)
      else c # replace_spaces False cs)"

definition dquote :: char where
  "dquote = CHR 0x22"

definition newline :: char where
  "newline = CHR 0x0A"

section \<open>The CSV line parser\<close>

text \<open>
  \<^verbatim>\<open>parseCsvLine\<close>: the loop over the characters of the line, with its three variables
  \<^verbatim>\<open>result\<close>, \<^verbatim>\<open>current\<close> and \<^verbatim>\<open>inQuotes\<close>; after the loop the last field is pushed.
\<close>

fun parseCsvLine_loop :: "string \<Rightarrow> string list \<Rightarrow> string \<Rightarrow> bool \<Rightarrow> string list" where
  "parseCsvLine_loop [] result current inQuotes = result @ [trim current]"
| "parseCsvLine_loop (c # line) result current inQuotes =
     (if c = dquote then parseCsvLine_loop line result current (\<not> inQuotes)
      else if c = CHR '','' \<and> \<not> inQuotes then parseCsvLine_loop line (result @ [trim current]) [] inQuotes
      else parseCsvLine_loop line result (current @ [c]) inQuotes)"

definition parseCsvLine :: "string \<Rightarrow> string list" where
  "parseCsvLine line = parseCsvLine_loop line [] [] False"

section \<open>Numbers of the client\<close>

text \<open>
  \<^verbatim>\<open>parseInt(s)\<close> with no radix: leading white space and a sign are skipped, a prefix
  \<^verbatim>\<open>0x\<close> or \<^verbatim>\<open>0X\<close> selects radix 16, and the longest prefix of digits is read. The
  result is a number of the client, a double: the integer read, rounded to 53 significant
  bits (ties to even), and infinite from \<open>2 ^ 1024\<close> on. \<open>None\<close> stands for the results that
  the request sends as null: NaN (no digit) and the two infinities. (For radix 10 the
  language lets an implementation take the digits after the twentieth as zeros; the model
  rounds the exact integer.)
\<close>

definition digit_value :: "char \<Rightarrow> nat option" where
  "digit_value c =
     (let n = of_char c :: nat in
      if 48 \<le> n \<and> n \<le> 57 then Some (n - 48)
      else if 97 \<le> n \<and> n \<le> 122 then Some (n - 87)
      else if 65 \<le> n \<and> n \<le> 90 then Some (n - 55)
      else None)"

definition is_digit :: "nat \<Rightarrow> char \<Rightarrow> bool" where
  "is_digit radix c = (case digit_value c of None \<Rightarrow> False | Some d \<Rightarrow> d < radix)"

fun digits_value :: "nat \<Rightarrow> nat \<Rightarrow> string \<Rightarrow> nat" where
  "digits_value radix acc [] = acc"
| "digits_value radix acc (c # cs) = digits_value radix (acc * radix + the (digit_value c)) cs"

fun bit_length :: "nat \<Rightarrow> nat" where
  "bit_length n = (if n = 0 then 0 else Suc (bit_length (n div 2)))"

definition round_to_double :: "nat \<Rightarrow> nat option" where
  "round_to_double n =
     (if n < 9007199254740992 then Some n
      else
        let e = bit_length n - 53;
            q = n div 2 ^ e;
            r = n mod 2 ^ e;
            half = 2 ^ (e - 1);
            q' = (if half < r \<or> (r = half \<and> odd q) then q + 1 else q);
            v = q' * 2 ^ e
        in if 2 ^ 1024 \<le> v then None else Some v)"

definition parseInt :: "string \<Rightarrow> int option" where
  "parseInt s =
     (let t = dropWhile is_space s;
          negative = (t \<noteq> [] \<and> hd t = CHR ''-'');
          u = (if t \<noteq> [] \<and> (hd t = CHR ''-'' \<or> hd t = CHR ''+'') then tl t else t);
          hex = (take 2 u = ''0x'' \<or> take 2 u = ''0X'');
          radix = (if hex then 16 else 10);
          v = (if hex then drop 2 u else u);
          z = takeWhile (is_digit radix) v
      in if z = [] then None
         else (case round_to_double (digits_value radix 0 z) of
                 None \<Rightarrow> None
               | Some d \<Rightarrow> Some ((if negative then - 1 else 1) * int d)))"

text \<open>
  What the model takes from the runtime and the libraries outside the repository:
  the e-mail test of the validation library, \<^verbatim>\<open>parseFloat\<close> (\<open>None\<close> when the result is
  NaN or infinite, which the request sends as null), the text of a number
  (\<^verbatim>\<open>String(n)\<close>), and the text of a timestamp in the rows the store returns. A number
  that \<^verbatim>\<open>parseFloat\<close> returns is the rational it denotes; how it rounds to a double is
  left to the runtime.
\<close>

record runtime =
  zod_email :: "string \<Rightarrow> bool"
  parseFloat :: "string \<Rightarrow> rat option"
  number_text :: "rat \<Rightarrow> string"
  timestamp_text :: "timestamptz \<Rightarrow> string"

section \<open>CSV import\<close>

text \<open>
  \<^verbatim>\<open>headers.forEach((header, index) => { if (values[index]) rowData[header] = values[index] })\<close>:
  a header whose cell is missing (\<^verbatim>\<open>undefined\<close>) or empty gets no entry; a later header of
  the same name overwrites an earlier one.
\<close>

fun build_rowData :: "string list \<Rightarrow> string list \<Rightarrow> (string \<rightharpoonup> string) \<Rightarrow> (string \<rightharpoonup> string)" where
  "build_rowData [] values rowData = rowData"
| "build_rowData (header # headers) [] rowData = build_rowData headers [] rowData"
| "build_rowData (header # headers) (v # values) rowData =
     build_rowData headers values (if v \<noteq> [] then rowData(header \<mapsto> v) else rowData)"

text \<open>
  \<^verbatim>\<open>csvImportSchema\<close>: three required strings (\<^verbatim>\<open>min(1)\<close>, and \<^verbatim>\<open>email()\<close> for the third)
  and eleven optional strings; keys the schema does not name are dropped. \<^verbatim>\<open>parse\<close>
  throws an error that lists the issues.
\<close>

record CSVImportData =
  v_first_name :: string
  v_last_name :: string
  v_email :: string
  v_phone :: "string option"
  v_budget_min :: "string option"
  v_budget_max :: "string option"
  v_preferred_areas :: "string option"
  v_property_type :: "string option"
  v_bedrooms :: "string option"
  v_bathrooms :: "string option"
  v_status :: "string option"
  v_source :: "string option"
  v_priority :: "string option"
  v_notes :: "string option"

datatype zod_issue = Required string | Too_small string | Invalid_email string

definition string_min1 :: "string \<Rightarrow> string option \<Rightarrow> zod_issue list" where
  "string_min1 path v =
     (case v of None \<Rightarrow> [Required path]
      | Some s \<Rightarrow> if length s < 1 then [Too_small path] else [])"

definition string_email :: "(string \<Rightarrow> bool) \<Rightarrow> string \<Rightarrow> string option \<Rightarrow> zod_issue list" where
  "string_email is_email path v =
     (case v of None \<Rightarrow> [Required path]
      | Some s \<Rightarrow> if is_email s then [] else [Invalid_email path])"

definition csvImportSchema_parse :: "(string \<Rightarrow> bool) \<Rightarrow> (string \<rightharpoonup> string) \<Rightarrow> zod_issue list + CSVImportData" where
  "csvImportSchema_parse is_email rowData =
     (let issues = string_min1 ''first_name'' (rowData ''first_name'') @
                   string_min1 ''last_name'' (rowData ''last_name'') @
                   string_email is_email ''email'' (rowData ''email'')
      in if issues \<noteq> [] then Inl issues
         else Inr \<lparr>v_first_name = the (rowData ''first_name''),
                   v_last_name = the (rowData ''last_name''),
                   v_email = the (rowData ''email''),
                   v_phone = rowData ''phone'',
                   v_budget_min = rowData ''budget_min'',
                   v_budget_max = rowData ''budget_max'',
                   v_preferred_areas = rowData ''preferred_areas'',
                   v_property_type = rowData ''property_type'',
                   v_bedrooms = rowData ''bedrooms'',
                   v_bathrooms = rowData ''bathrooms'',
                   v_status = rowData ''status'',
                   v_source = rowData ''source'',
                   v_priority = rowData ''priority'',
                   v_notes = rowData ''notes''\<rparr>)"

text \<open>
  \<^verbatim>\<open>leadData\<close>, the object the import inserts. \<^verbatim>\<open>x || d\<close> and \<^verbatim>\<open>x ? f(x) : d\<close> take
  \<open>d\<close> when \<open>x\<close> is undefined or the empty string. A number that is NaN is \<open>None\<close>.
\<close>

record leadData =
  ld_first_name :: string
  ld_last_name :: string
  ld_email :: string
  ld_phone :: "string option"
  ld_budget_min :: "rat option"
  ld_budget_max :: "rat option"
  ld_preferred_areas :: "string list"
  ld_property_type :: "string option"
  ld_bedrooms :: "int option"
  ld_bathrooms :: "rat option"
  ld_status :: string
  ld_source :: string
  ld_priority :: "int option"
  ld_notes :: "string option"
  ld_created_by :: uuid

definition truthy :: "string option \<Rightarrow> bool" where
  "truthy v = (case v of None \<Rightarrow> False | Some s \<Rightarrow> s \<noteq> [])"

definition or_null :: "string option \<Rightarrow> string option" where
  "or_null v = (if truthy v then v else None)"

definition or_else :: "string option \<Rightarrow> string \<Rightarrow> string" where
  "or_else v d = (if truthy v then the v else d)"

definition make_leadData :: "runtime \<Rightarrow> uuid \<Rightarrow> CSVImportData \<Rightarrow> leadData" where
  "make_leadData rt user_id validatedData =
     \<lparr>ld_first_name = v_first_name validatedData,
      ld_last_name = v_last_name validatedData,
      ld_email = v_email validatedData,
      ld_phone = or_null (v_phone validatedData),
      ld_budget_min = (if truthy (v_budget_min validatedData)
                       then parseFloat rt (the (v_budget_min validatedData)) else None),
      ld_budget_max = (if truthy (v_budget_max validatedData)
                       then parseFloat rt (the (v_budget_max validatedData)) else None),
      ld_preferred_areas = (if truthy (v_preferred_areas validatedData)
                            then map trim (split CHR '';'' (the (v_preferred_areas validatedData)))
                            else []),
      ld_property_type = or_null (v_property_type validatedData),
      ld_bedrooms = (if truthy (v_bedrooms validatedData)
                     then parseInt (the (v_bedrooms validatedData)) else None),
      ld_bathrooms = (if truthy (v_bathrooms validatedData)
                      then parseFloat rt (the (v_bathrooms validatedData)) else None),
      ld_status = or_else (v_status validatedData) ''new'',
      ld_source = or_else (v_source validatedData) ''other'',
      ld_priority = (if truthy (v_priority validatedData)
                     then parseInt (the (v_priority validatedData)) else Some 3),
      ld_notes = or_null (v_notes validatedData),
      ld_created_by = user_id\<rparr>"

text \<open>
  The request of \<^verbatim>\<open>supabase.from('buyer_leads').insert(leadData)\<close>: every key of
  \<^verbatim>\<open>leadData\<close> is sent, a \<^verbatim>\<open>null\<close> (and a NaN, which JSON writes as null) as NULL.
\<close>

definition nullable :: "'a option \<Rightarrow> 'a col" where
  "nullable v = (case v of None \<Rightarrow> Null | Some x \<Rightarrow> Val x)"

definition insert_request :: "leadData \<Rightarrow> lead_request" where
  "insert_request ld =
     \<lparr>q_created_by = Val (ld_created_by ld), q_assigned_to = Omitted,
      q_first_name = Val (ld_first_name ld), q_last_name = Val (ld_last_name ld),
      q_email = Val (ld_email ld), q_phone = nullable (ld_phone ld),
      q_budget_min = nullable (ld_budget_min ld), q_budget_max = nullable (ld_budget_max ld),
      q_preferred_areas = Val (ld_preferred_areas ld),
      q_property_type = nullable (ld_property_type ld),
      q_bedrooms = nullable (ld_bedrooms ld), q_bathrooms = nullable (ld_bathrooms ld),
      q_status = Val (ld_status ld), q_source = Val (ld_source ld),
      q_priority = nullable (ld_priority ld), q_notes = nullable (ld_notes ld),
      q_last_contacted = Omitted, q_next_follow_up = Omitted\<rparr>"

text \<open>
  The body of the inner \<^verbatim>\<open>try\<close>: one data line is parsed, validated and inserted. The
  result is the error that the \<^verbatim>\<open>catch\<close> records, or the database after the insert.
\<close>

datatype row_error = ZodError "zod_issue list" | PostgrestError db_error

definition import_values :: "runtime \<Rightarrow> timestamptz \<Rightarrow> uuid \<Rightarrow> string list \<Rightarrow> string list \<Rightarrow> database \<Rightarrow> row_error + database" where
  "import_values rt now user_id headers values db =
     (let rowData = build_rowData headers values Map.empty
      in case csvImportSchema_parse (zod_email rt) rowData of
           Inl issues \<Rightarrow> Inl (ZodError issues)
         | Inr validatedData \<Rightarrow>
             (case insert_buyer_lead (Some user_id) now
                     (insert_request (make_leadData rt user_id validatedData)) db of
                Inl e \<Rightarrow> Inl (PostgrestError e)
              | Inr db' \<Rightarrow> Inr db'))"

definition import_row :: "runtime \<Rightarrow> timestamptz \<Rightarrow> uuid \<Rightarrow> string list \<Rightarrow> string \<Rightarrow> database \<Rightarrow> row_error + database" where
  "import_row rt now user_id headers line db =
     import_values rt now user_id headers (parseCsvLine line) db"

text \<open>
  The loop \<^verbatim>\<open>for (let i = 0; i < dataLines.length; i++)\<close>, from index \<open>i\<close> on, with the
  variables \<^verbatim>\<open>successCount\<close> and \<^verbatim>\<open>errors\<close>. \<open>clock i\<close> is the server's time at the
  insert of line \<open>i\<close>.
\<close>

fun import_loop :: "runtime \<Rightarrow> (nat \<Rightarrow> timestamptz) \<Rightarrow> uuid \<Rightarrow> string list \<Rightarrow> string list \<Rightarrow> nat \<Rightarrow>
    nat \<Rightarrow> (nat \<times> row_error) list \<Rightarrow> database \<Rightarrow> nat \<times> (nat \<times> row_error) list \<times> database" where
  "import_loop rt clock user_id headers [] i successCount errors db = (successCount, errors, db)"
| "import_loop rt clock user_id headers (line # dataLines) i successCount errors db =
     (if trim line = [] then import_loop rt clock user_id headers dataLines (i + 1) successCount errors db
      else (case import_row rt (clock i) user_id headers line db of
              Inl e \<Rightarrow>
                import_loop rt clock user_id headers dataLines (i + 1) successCount
                  (errors @ [(i + 2, e)]) db
            | Inr db' \<Rightarrow>
                import_loop rt clock user_id headers dataLines (i + 1) (successCount + 1)
                  errors db'))"

record ImportResult =
  success :: nat
  errors :: "(nat \<times> row_error) list"
  total :: nat

text \<open>
  \<^verbatim>\<open>handleFileImport\<close> for a signed-in user: either the outer \<^verbatim>\<open>catch\<close> shows the toast
  \<^verbatim>\<open>Import Error\<close> with the message thrown, or the result is set.
\<close>

datatype import_outcome = Import_Error string | Import_Result ImportResult

definition requiredFields :: "string list" where
  "requiredFields = [''first_name'', ''last_name'', ''email'']"

text \<open>
  \<^verbatim>\<open>text.split('\n').filter(line => line.trim())\<close>, and the header names of the first
  line: \<^verbatim>\<open>parseCsvLine(lines[0]).map(h => h.toLowerCase().replace(/\s+/g, '_'))\<close>.
\<close>

definition csv_lines :: "string \<Rightarrow> string list" where
  "csv_lines text = filter (\<lambda>line. trim line \<noteq> []) (split newline text)"

definition csv_headers :: "string list \<Rightarrow> string list" where
  "csv_headers lines = map (\<lambda>h. replace_spaces False (toLowerCase h)) (parseCsvLine (hd lines))"

definition handleFileImport :: "runtime \<Rightarrow> (nat \<Rightarrow> timestamptz) \<Rightarrow> uuid \<Rightarrow> string \<Rightarrow> database \<Rightarrow> import_outcome \<times> database" where
  "handleFileImport rt clock user_id text db =
     (let lines = csv_lines text in
      if length lines < 2
      then (Import_Error ''CSV file must contain at least a header row and one data row'', db)
      else
        let headers = csv_headers lines;
            dataLines = tl lines;
            missingFields = filter (\<lambda>field. field \<notin> set headers) requiredFields
        in if length missingFields > 0
           then (Import_Error (''Missing required columns: '' @ join '', '' missingFields), db)
           else (case import_loop rt clock user_id headers dataLines 0 0 [] db of
                   (successCount, errs, db') \<Rightarrow>
                     (Import_Result \<lparr>success = successCount, errors = errs,
                                     total = length dataLines\<rparr>, db')))"

section \<open>CSV export\<close>

text \<open>
  The query of \<^verbatim>\<open>handleExport\<close>: \<^verbatim>\<open>select('*').order('created_at', {ascending: false})\<close>,
  which returns the rows the caller may select, latest first (NULLs first; the order of
  rows with equal times is the store's choice, here the table's order reversed).
\<close>

definition select_buyer_leads :: "uuid option \<Rightarrow> database \<Rightarrow> buyer_lead list" where
  "select_buyer_leads uid db =
     (let visible = filter (lead_select_allowed (profiles db) uid) (buyer_leads db)
      in filter (\<lambda>bl. created_at bl = None) visible @
         rev (sort_key (\<lambda>bl. the (created_at bl)) (filter (\<lambda>bl. created_at bl \<noteq> None) visible)))"

text \<open>A value of a row object: \<^verbatim>\<open>lead[header]\<close>; an unknown key is \<^verbatim>\<open>undefined\<close>.\<close>

datatype js_value = JNull | JUndefined | JString string | JNumber rat | JArray "string list"

definition js_string :: "string option \<Rightarrow> js_value" where
  "js_string v = (case v of None \<Rightarrow> JNull | Some s \<Rightarrow> JString s)"

definition js_number :: "rat option \<Rightarrow> js_value" where
  "js_number v = (case v of None \<Rightarrow> JNull | Some n \<Rightarrow> JNumber n)"

definition lead_property :: "runtime \<Rightarrow> buyer_lead \<Rightarrow> string \<Rightarrow> js_value" where
  "lead_property rt lead header =
     (if header = ''first_name'' then js_string (first_name lead)
      else if header = ''last_name'' then js_string (last_name lead)
      else if header = ''email'' then js_string (email lead)
      else if header = ''phone'' then js_string (phone lead)
      else if header = ''budget_min'' then js_number (budget_min lead)
      else if header = ''budget_max'' then js_number (budget_max lead)
      else if header = ''preferred_areas'' then
        (case preferred_areas lead of None \<Rightarrow> JNull | Some areas \<Rightarrow> JArray areas)
      else if header = ''property_type'' then js_string (property_type lead)
      else if header = ''bedrooms'' then js_number (map_option of_int (bedrooms lead))
      else if header = ''bathrooms'' then js_number (bathrooms lead)
      else if header = ''status'' then js_string (map_option lead_status_text (status lead))
      else if header = ''source'' then js_string (map_option lead_source_text (source lead))
      else if header = ''priority'' then js_number (map_option of_int (priority lead))
      else if header = ''notes'' then js_string (bl_notes lead)
      else if header = ''created_at'' then js_string (map_option (timestamp_text rt) (created_at lead))
      else JUndefined)"

text \<open>
  The cell of one header: the \<^verbatim>\<open>if\<close> chain of the export, then the conversion to text
  that \<^verbatim>\<open>join(',')\<close> applies to the cell (null and undefined give the empty text).
\<close>

definition cell_value :: "string \<Rightarrow> js_value \<Rightarrow> js_value" where
  "cell_value header v =
     (case v of
        JArray xs \<Rightarrow> if header = ''preferred_areas'' then JString (join '';'' xs) else v
      | JNull \<Rightarrow> JString []
      | JUndefined \<Rightarrow> JString []
      | JString s \<Rightarrow> if CHR '','' \<in> set s then JString ([dquote] @ s @ [dquote]) else v
      | JNumber n \<Rightarrow> v)"

definition to_text :: "runtime \<Rightarrow> js_value \<Rightarrow> string" where
  "to_text rt v =
     (case v of
        JNull \<Rightarrow> []
      | JUndefined \<Rightarrow> []
      | JString s \<Rightarrow> s
      | JNumber n \<Rightarrow> number_text rt n
      | JArray xs \<Rightarrow> join '','' xs)"

definition export_headers :: "string list" where
  "export_headers =
     [''first_name'', ''last_name'', ''email'', ''phone'', ''budget_min'', ''budget_max'',
      ''preferred_areas'', ''property_type'', ''bedrooms'', ''bathrooms'', ''status'',
      ''source'', ''priority'', ''notes'', ''created_at'']"

definition export_line :: "runtime \<Rightarrow> buyer_lead \<Rightarrow> string" where
  "export_line rt lead =
     join '','' (map (\<lambda>header. to_text rt (cell_value header (lead_property rt lead header)))
                  export_headers)"

definition csvContent :: "runtime \<Rightarrow> buyer_lead list \<Rightarrow> string" where
  "csvContent rt leads = join [newline] (join '','' export_headers # map (export_line rt) leads)"

text \<open>
  \<^verbatim>\<open>handleExport\<close> on the answer of the query (\<open>Inl\<close> when the store reports an error):
  what is downloaded, if anything, and the toast that is shown.
\<close>

datatype toast_variant = Default_variant | Destructive

record export_outcome =
  download :: "string option"
  toast_title :: string
  toast_variant :: toast_variant

definition handleExport :: "runtime \<Rightarrow> string + buyer_lead list \<Rightarrow> export_outcome" where
  "handleExport rt answer =
     (case answer of
        Inl message \<Rightarrow>
          \<lparr>download = None, toast_title = ''Export Error'', toast_variant = Destructive\<rparr>
      | Inr leads \<Rightarrow>
          if length leads = 0
          then \<lparr>download = None, toast_title = ''No Data'', toast_variant = Destructive\<rparr>
          else \<lparr>download = Some (csvContent rt leads), toast_title = ''Export Successful!'',
                toast_variant = Default_variant\<rparr>)"

section \<open>Properties of stored leads\<close>

text \<open>
  The labels of the two enums, and what holds of every stored lead: the priority is NULL
  or between 1 and 5, the status and the source are NULL or one of the labels.
  \<open>outside_sets\<close> holds of a statement that supplies a priority, status or source outside
  these sets.
\<close>

definition lead_status_labels :: "string list" where
  "lead_status_labels = [''new'', ''contacted'', ''qualified'', ''not_qualified'', ''closed'']"

definition lead_source_labels :: "string list" where
  "lead_source_labels =
     [''website'', ''referral'', ''social_media'', ''cold_call'', ''email_campaign'', ''other'']"

definition lead_valid :: "buyer_lead \<Rightarrow> bool" where
  "lead_valid bl =
     ((case priority bl of None \<Rightarrow> True | Some p \<Rightarrow> p \<in> {1, 2, 3, 4, 5}) \<and>
      (case status bl of None \<Rightarrow> True
       | Some st \<Rightarrow> lead_status_text st \<in> set lead_status_labels) \<and>
      (case source bl of None \<Rightarrow> True
       | Some src \<Rightarrow> lead_source_text src \<in> set lead_source_labels))"

definition outside_sets :: "lead_request \<Rightarrow> bool" where
  "outside_sets q =
     ((case q_priority q of Val p \<Rightarrow> p \<notin> {1, 2, 3, 4, 5} | _ \<Rightarrow> False) \<or>
      (case q_status q of Val s \<Rightarrow> s \<notin> set lead_status_labels | _ \<Rightarrow> False) \<or>
      (case q_source q of Val s \<Rightarrow> s \<notin> set lead_source_labels | _ \<Rightarrow> False))"

section \<open>Properties of CSV rows and texts\<close>

text \<open>
  A row without its column \<open>j\<close>.
\<close>

definition drop_column :: "nat \<Rightarrow> 'a list \<Rightarrow> 'a list" where
  "drop_column j xs = take j xs @ drop (Suc j) xs"

text \<open>
  Texts that the CSV format of the export and the parser of the import carry unchanged:
  no white space at either end, no double quote and no line feed. A plain cell has no
  comma either, and is not empty.
\<close>

definition trimmed :: "string \<Rightarrow> bool" where
  "trimmed s = (s = [] \<or> (\<not> is_space (hd s) \<and> \<not> is_space (last s)))"

definition clean_text :: "string \<Rightarrow> bool" where
  "clean_text s = (trimmed s \<and> dquote \<notin> set s \<and> newline \<notin> set s)"

definition clean_cell :: "string \<Rightarrow> bool" where
  "clean_cell s = (s \<noteq> [] \<and> clean_text s)"

definition plain_cell :: "string \<Rightarrow> bool" where
  "plain_cell s = (clean_cell s \<and> CHR '','' \<notin> set s)"

definition clean_area :: "string \<Rightarrow> bool" where
  "clean_area a = (clean_text a \<and> CHR '','' \<notin> set a \<and> CHR '';'' \<notin> set a)"

text \<open>A cell of the export is the text itself, or the text between double quotes.\<close>

definition encodes :: "string \<Rightarrow> string \<Rightarrow> bool" where
  "encodes cell s = (dquote \<notin> set s \<and>
     ((cell = s \<and> CHR '','' \<notin> set s) \<or> cell = [dquote] @ s @ [dquote]))"

definition round_trip_number :: "runtime \<Rightarrow> rat \<Rightarrow> bool" where
  "round_trip_number rt x =
     (plain_cell (number_text rt x) \<and> parseFloat rt (number_text rt x) = Some x)"

definition round_trip_integer :: "runtime \<Rightarrow> int \<Rightarrow> bool" where
  "round_trip_integer rt n =
     (plain_cell (number_text rt (of_int n)) \<and> parseInt (number_text rt (of_int n)) = Some n)"

text \<open>
  The leads whose exported columns the import reads back: the three required texts are
  clean and not empty and the e-mail passes the validation; an optional text is NULL or
  clean and not empty; a number is NULL or one that the runtime writes as a plain cell and
  reads back, and that the column holds unchanged; the preferred areas are a list of clean
  texts without comma and semicolon (and not the list of one empty text); status, source
  and priority are not NULL; the text of the creation time has no double quote and no
  line feed.
\<close>

definition round_trip_lead :: "runtime \<Rightarrow> buyer_lead \<Rightarrow> bool" where
  "round_trip_lead rt bl =
     ((case first_name bl of None \<Rightarrow> False | Some s \<Rightarrow> clean_cell s) \<and>
      (case last_name bl of None \<Rightarrow> False | Some s \<Rightarrow> clean_cell s) \<and>
      (case email bl of None \<Rightarrow> False | Some s \<Rightarrow> clean_cell s \<and> zod_email rt s) \<and>
      (case phone bl of None \<Rightarrow> True | Some s \<Rightarrow> clean_cell s) \<and>
      (case budget_min bl of None \<Rightarrow> True
       | Some x \<Rightarrow> round_trip_number rt x \<and> numeric_in 12 2 x = Some x) \<and>
      (case budget_max bl of None \<Rightarrow> True
       | Some x \<Rightarrow> round_trip_number rt x \<and> numeric_in 12 2 x = Some x) \<and>
      (case preferred_areas bl of None \<Rightarrow> False
       | Some areas \<Rightarrow> areas \<noteq> [[]] \<and> list_all clean_area areas) \<and>
      (case property_type bl of None \<Rightarrow> True | Some s \<Rightarrow> clean_cell s) \<and>
      (case bedrooms bl of None \<Rightarrow> True
       | Some n \<Rightarrow> round_trip_integer rt n \<and> int4_in n = Some n) \<and>
      (case bathrooms bl of None \<Rightarrow> True
       | Some x \<Rightarrow> round_trip_number rt x \<and> numeric_in 3 1 x = Some x) \<and>
      status bl \<noteq> None \<and>
      source bl \<noteq> None \<and>
      (case priority bl of None \<Rightarrow> False
       | Some p \<Rightarrow> round_trip_integer rt p \<and> 1 \<le> p \<and> p \<le> 5) \<and>
      (case bl_notes bl of None \<Rightarrow> True | Some s \<Rightarrow> clean_cell s) \<and>
      (case created_at bl of None \<Rightarrow> True
       | Some t \<Rightarrow> dquote \<notin> set (timestamp_text rt t) \<and> newline \<notin> set (timestamp_text rt t)))"

text \<open>The fourteen columns that the export writes and the import reads.\<close>

definition exported_fields :: "buyer_lead \<Rightarrow>
    (string option \<times> string option \<times> string option \<times> string option) \<times>
    (rat option \<times> rat option \<times> string list option \<times> string option) \<times>
    (int option \<times> rat option \<times> lead_status option \<times> lead_source option) \<times>
    (int option \<times> string option)" where
  "exported_fields bl =
     ((first_name bl, last_name bl, email bl, phone bl),
      (budget_min bl, budget_max bl, preferred_areas bl, property_type bl),
      (bedrooms bl, bathrooms bl, status bl, source bl),
      (priority bl, bl_notes bl))"

text \<open>
  The values of the cells of an exported line, as the parser of the import returns them.
\<close>

definition opt_text :: "string option \<Rightarrow> string" where
  "opt_text v = (case v of None \<Rightarrow> [] | Some s \<Rightarrow> s)"

definition opt_number :: "runtime \<Rightarrow> rat option \<Rightarrow> string" where
  "opt_number rt v = (case v of None \<Rightarrow> [] | Some x \<Rightarrow> number_text rt x)"

definition row_values :: "runtime \<Rightarrow> buyer_lead \<Rightarrow> string list" where
  "row_values rt bl =
     [opt_text (first_name bl), opt_text (last_name bl), opt_text (email bl), opt_text (phone bl),
      opt_number rt (budget_min bl), opt_number rt (budget_max bl),
      join '';'' (the (preferred_areas bl)), opt_text (property_type bl),
      opt_number rt (map_option of_int (bedrooms bl)), opt_number rt (bathrooms bl),
      opt_text (map_option lead_status_text (status bl)),
      opt_text (map_option lead_source_text (source bl)),
      opt_number rt (map_option of_int (priority bl)), opt_text (bl_notes bl),
      trim (opt_text (map_option (timestamp_text rt) (created_at bl)))]"

section \<open>Properties of the import\<close>

text \<open>
  The outcome of a data line is what \<^verbatim>\<open>import_row\<close> returns for it: the error that the
  \<^verbatim>\<open>catch\<close> records, or the database after the insert. \<open>db_after db outcomes\<close> is the
  database that a list of outcomes leaves, starting from \<open>db\<close>: a failure leaves it as it
  is. \<open>recorded_errors i outcomes\<close> lists the failures among the outcomes of the data lines
  from index \<open>i\<close> on, each with its row number \<open>index + 2\<close>.
\<close>

fun db_after :: "database \<Rightarrow> (row_error + database) list \<Rightarrow> database" where
  "db_after db [] = db"
| "db_after db (Inl e # outcomes) = db_after db outcomes"
| "db_after db (Inr db' # outcomes) = db_after db' outcomes"

fun recorded_errors :: "nat \<Rightarrow> (row_error + database) list \<Rightarrow> (nat \<times> row_error) list" where
  "recorded_errors i [] = []"
| "recorded_errors i (Inl e # outcomes) = (i + 2, e) # recorded_errors (i + 1) outcomes"
| "recorded_errors i (Inr db' # outcomes) = recorded_errors (i + 1) outcomes"

section \<open>Example data\<close>

text \<open>
  A database with an admin (identity 1), an agent (identity 2) and a viewer (identity 3),
  one lead created by the admin, and one activity on that lead.
\<close>

definition example_lead :: buyer_lead where
  "example_lead =
     \<lparr>bl_id = 10, created_by = Some 1, assigned_to = None,
      first_name = Some ''John'', last_name = Some ''Doe'', email = Some ''john@x.com'',
      phone = None,
      budget_min = None, budget_max = None, preferred_areas = Some [], property_type = None,
      bedrooms = None, bathrooms = None, status = Some New, source = Some Website,
      priority = Some 3, bl_notes = None, last_contacted = None, next_follow_up = None,
      created_at = Some 0, updated_at = Some 0\<rparr>"

definition example_profiles :: "profile list" where
  "example_profiles =
     [\<lparr>p_id = 101, p_user_id = 1, p_full_name = Some ''Ann'', p_role = Some Admin\<rparr>,
      \<lparr>p_id = 102, p_user_id = 2, p_full_name = Some ''Bob'', p_role = Some Agent\<rparr>,
      \<lparr>p_id = 103, p_user_id = 3, p_full_name = Some ''Vic'', p_role = Some Viewer\<rparr>]"

definition example_activity :: lead_activity where
  "example_activity =
     \<lparr>la_id = 50, lead_id = 10, la_user_id = Some 1, activity_type = ''lead_created'',
      description = ''Lead created for John Doe'', la_created_at = Some 0\<rparr>"

definition example_db :: database where
  "example_db = \<lparr>profiles = example_profiles, buyer_leads = [example_lead],
                  lead_activities = [example_activity]\<rparr>"

text \<open>
  A request as the client sends it, and the lead that the import of the row
  \<^verbatim>\<open>John,Doe,john@x.com\<close> by the agent stores.
\<close>

definition example_request :: lead_request where
  "example_request =
     \<lparr>q_created_by = Val 2, q_assigned_to = Omitted,
      q_first_name = Val ''Jane'', q_last_name = Val ''Smith'', q_email = Val ''jane@x.com'',
      q_phone = Null, q_budget_min = Null, q_budget_max = Null, q_preferred_areas = Val [],
      q_property_type = Null, q_bedrooms = Null, q_bathrooms = Null,
      q_status = Val ''new'', q_source = Val ''other'', q_priority = Val 3,
      q_notes = Null, q_last_contacted = Omitted, q_next_follow_up = Omitted\<rparr>"

definition example_imported :: "timestamptz \<Rightarrow> buyer_lead" where
  "example_imported now =
     \<lparr>bl_id = 11, created_by = Some 2, assigned_to = None,
      first_name = Some ''John'', last_name = Some ''Doe'', email = Some ''john@x.com'',
      phone = None, budget_min = None, budget_max = None, preferred_areas = Some [],
      property_type = None, bedrooms = None, bathrooms = None, status = Some New,
      source = Some Other, priority = Some 3, bl_notes = None, last_contacted = None,
      next_follow_up = None, created_at = Some now, updated_at = Some now\<rparr>"

text \<open>Decimal notation, for the runtime of the examples.\<close>

fun show_nat :: "nat \<Rightarrow> string" where
  "show_nat n = (if n < 10 then [''0123456789'' ! n] else show_nat (n div 10) @ [''0123456789'' ! (n mod 10)])"

definition show_decimal :: "rat \<Rightarrow> string" where
  "show_decimal x =
     (let whole = nat \<lfloor>\<bar>x\<bar>\<rfloor>;
          hundredths = nat \<lfloor>\<bar>x\<bar> * 100\<rfloor> mod 100
      in (if x < 0 then ''-'' else []) @ show_nat whole @
         (if hundredths = 0 then []
          else if hundredths mod 10 = 0 then ''.'' @ show_nat (hundredths div 10)
          else ''.'' @ show_nat (hundredths div 10) @ show_nat (hundredths mod 10)))"

definition read_decimal :: "string \<Rightarrow> rat option" where
  "read_decimal s =
     (let t = dropWhile is_space s;
          negative = (t \<noteq> [] \<and> hd t = CHR ''-'');
          u = (if t \<noteq> [] \<and> (hd t = CHR ''-'' \<or> hd t = CHR ''+'') then tl t else t);
          whole = takeWhile (is_digit 10) u;
          rest = dropWhile (is_digit 10) u;
          fraction = (if rest \<noteq> [] \<and> hd rest = CHR ''.'' then takeWhile (is_digit 10) (tl rest) else [])
      in if whole = [] \<and> fraction = [] then None
         else Some ((if negative then - 1 else 1) *
                (of_nat (digits_value 10 0 whole) +
                 of_nat (digits_value 10 0 fraction) / 10 ^ length fraction)))"

text \<open>
  A runtime for the closed examples: the e-mail test asks for an \<^verbatim>\<open>@\<close>, numbers are
  written and read in decimal notation with at most two fractional digits, and every
  timestamp is written as the same text.
\<close>

definition example_runtime :: runtime where
  "example_runtime =
     \<lparr>zod_email = (\<lambda>s. CHR ''@'' \<in> set s),
      parseFloat = read_decimal,
      number_text = show_decimal,
      timestamp_text = (\<lambda>t. ''2025-09-15T11:15:53+00:00'')\<rparr>"

text \<open>
  CSV texts: the example of the specification, the same with an empty second line, the
  same with the failing row first, a header alone, and a file without the \<^verbatim>\<open>email\<close>
  column.
\<close>

definition example_csv :: string where
  "example_csv = join [newline]
     [''first_name,last_name,email'', ''John,Doe,john@x.com'', '',Smith,jane@x.com'']"

definition blank_line_csv :: string where
  "blank_line_csv = join [newline]
     [''first_name,last_name,email'', [], '',Smith,jane@x.com'']"

definition bad_first_csv :: string where
  "bad_first_csv = join [newline]
     [''first_name,last_name,email'', '',Smith,jane@x.com'', ''John,Doe,john@x.com'']"

definition header_only_csv :: string where
  "header_only_csv = ''first_name,last_name,email''"

definition no_email_csv :: string where
  "no_email_csv = join [newline] [''First Name,Last Name,Phone'', ''John,Doe,555-0100'']"

text \<open>
  Two leads to export: one that the CSV format carries, and one with notes of two lines.
\<close>

definition exported_lead :: buyer_lead where
  "exported_lead =
     \<lparr>bl_id = 20, created_by = Some 1, assigned_to = Some 2,
      first_name = Some ''Jane'', last_name = Some ''Smith'',
      email = Some ''jane.smith@example.com'', phone = Some ''+1-555-0124'',
      budget_min = Some 200000, budget_max = Some 350000,
      preferred_areas = Some [''Suburbs'', ''Midtown''], property_type = Some ''Condo'',
      bedrooms = Some 2, bathrooms = Some 2, status = Some Contacted, source = Some Referral,
      priority = Some 4, bl_notes = Some ''First-time buyer, pre-approved'',
      last_contacted = None, next_follow_up = None, created_at = Some 7, updated_at = Some 7\<rparr>"

definition multiline_lead :: buyer_lead where
  "multiline_lead =
     example_lead\<lparr>bl_notes := Some (''Call after 5pm'' @ [newline] @ ''Prefers e-mail'')\<rparr>"

section \<open>Facts about the numbers of the client\<close>

text \<open>
  \<^verbatim>\<open>parseInt\<close> returns a double: an integer below \<open>2 ^ 53\<close> is exact, a larger one is
  rounded, and from \<open>2 ^ 1024\<close> on the result is infinite, which the request sends as
  null. So the text of 1 followed by 309 zeros is read as no number.
\<close>

lemma bit_length_bounds:
  "0 < n \<Longrightarrow> 2 ^ (bit_length n - 1) \<le> n \<and> n < 2 ^ bit_length n"
proof (induction n rule: bit_length.induct)
  case (1 n)
  show ?case
  proof (cases "n div 2 = 0")
    case True
    with 1(2) have "n = 1" by (simp add: div_eq_0_iff)
    then show ?thesis by simp
  next
    case False
    with 1 have IH: "2 ^ (bit_length (n div 2) - 1) \<le> n div 2" "n div 2 < 2 ^ bit_length (n div 2)"
      by simp_all
    from False have p: "0 < bit_length (n div 2)" by simp
    have b: "bit_length n = Suc (bit_length (n div 2))"
      using 1(2) by (subst bit_length.simps) simp
    from p have "(2::nat) ^ bit_length (n div 2) = 2 * 2 ^ (bit_length (n div 2) - 1)"
      by (cases "bit_length (n div 2)") simp_all
    with IH(1) have "2 ^ bit_length (n div 2) \<le> n" by linarith
    moreover from IH(2) have "n < 2 * 2 ^ bit_length (n div 2)" by linarith
    ultimately show ?thesis unfolding b by simp
  qed
qed

lemma round_to_double_overflow:
  assumes "2 ^ 1024 \<le> n"
  shows "round_to_double n = None"
proof -
  define b where "b = bit_length n"
  define e where "e = b - 53"
  have big: "(9007199254740992::nat) = 2 ^ 53" by simp
  have "(2::nat) ^ 53 \<le> 2 ^ 1024" by (rule power_increasing) simp_all
  with assms have n53: "2 ^ 53 \<le> n" by linarith
  then have pos: "0 < n" by (metis less_le_trans zero_less_numeral zero_less_power)
  from bit_length_bounds [OF pos] have lo: "2 ^ (b - 1) \<le> n" and hi: "n < 2 ^ b"
    by (simp_all add: b_def)
  from assms hi have "(2::nat) ^ 1024 < 2 ^ b" by linarith
  then have b1024: "1024 < b" by (rule power_less_imp_less_exp [rotated]) simp
  then have be: "b - 1 = 52 + e" by (simp add: e_def)
  have "2 ^ 52 * 2 ^ e \<le> n" using lo unfolding be by (simp add: power_add)
  then have q: "2 ^ 52 \<le> n div 2 ^ e"
    by (simp add: less_eq_div_iff_mult_less_eq)
  have "(2::nat) ^ 1024 \<le> 2 ^ (b - 1)" using b1024 by (intro power_increasing) simp_all
  also have "\<dots> = 2 ^ 52 * 2 ^ e" unfolding be by (simp add: power_add)
  also have "\<dots> \<le> (n div 2 ^ e) * 2 ^ e" using q by simp
  finally have v: "2 ^ 1024 \<le> (n div 2 ^ e) * 2 ^ e" .
  then have v1: "2 ^ 1024 \<le> (n div 2 ^ e + 1) * 2 ^ e"
    by (simp add: add_mult_distrib)
  from n53 have "\<not> n < 9007199254740992" unfolding big by simp
  with v v1 show ?thesis
    unfolding round_to_double_def Let_def b_def [symmetric] e_def [symmetric]
    by (simp del: power_numeral)
qed

lemma round_to_double_exact: "n < 2 ^ 53 \<Longrightarrow> round_to_double n = Some n"
  by (simp add: round_to_double_def)

lemma round_to_double_examples:
  "round_to_double 9007199254740993 = Some 9007199254740992"
  "round_to_double 9007199254740995 = Some 9007199254740996"
  by (simp_all add: round_to_double_def Let_def)

lemma digits_value_zeros:
  "digits_value 10 acc (replicate k CHR ''0'') = acc * 10 ^ k"
  by (induction k arbitrary: acc) (simp_all add: digit_value_def)

lemma parseInt_examples:
  "parseInt '' 42abc'' = Some 42"
  "parseInt ''-0x1F'' = Some (- 31)"
  "parseInt ''abc'' = None"
  "parseInt ''9007199254740993'' = Some 9007199254740992"
  by (simp_all add: parseInt_def round_to_double_def is_digit_def digit_value_def is_space_def Let_def)

lemma parseInt_power_of_ten:
  "parseInt (CHR ''1'' # replicate k CHR ''0'') =
     map_option int (round_to_double (10 ^ k))"
proof -
  have z: "takeWhile (is_digit 10) (replicate k CHR ''0'') = replicate k CHR ''0''"
    by (simp add: takeWhile_eq_all_conv is_digit_def digit_value_def)
  have h: "take 2 (CHR ''1'' # replicate k CHR ''0'') \<noteq> ''0x''"
    "take 2 (CHR ''1'' # replicate k CHR ''0'') \<noteq> ''0X''"
    by (cases k; simp)+
  show ?thesis
    unfolding parseInt_def Let_def
    by (simp add: h is_space_def is_digit_def digit_value_def z digits_value_zeros
          split: option.splits)
qed

lemma parseInt_infinite: "parseInt (CHR ''1'' # replicate 309 CHR ''0'') = None"
proof -
  have "(2::nat) ^ 1024 \<le> 10 ^ 309" by simp
  then have "round_to_double (10 ^ 309) = None"
    by (rule round_to_double_overflow)
  then show ?thesis
    by (simp only: parseInt_power_of_ten option.map)
qed

section \<open>Facts about the policies\<close>

lemma is_true_simps [simp]:
  "is_true (Some True)" "\<not> is_true (Some False)" "\<not> is_true None"
  by (simp_all add: is_true_def)

lemma is_true_sql_or: "is_true (sql_or a b) \<longleftrightarrow> is_true a \<or> is_true b"
  by (cases "(a, b)" rule: sql_or.cases) (simp_all add: is_true_def)

lemma is_true_sql_and: "is_true (sql_and a b) \<longleftrightarrow> is_true a \<and> is_true b"
  by (cases "(a, b)" rule: sql_and.cases) (simp_all add: is_true_def)

lemma is_true_sql_eq: "is_true (sql_eq a b) \<longleftrightarrow> a \<noteq> None \<and> a = b"
  by (auto simp: is_true_def sql_eq_def split: option.splits)

lemma is_true_sql_in: "is_true (sql_in x vs) \<longleftrightarrow> (\<exists>v \<in> set vs. x = Some v)"
  by (induction vs) (auto simp: is_true_sql_or is_true_sql_eq)

lemmas policy_defs =
  admins_can_do_everything_def agents_can_view_all_leads_def agents_can_create_leads_def
  agents_can_update_leads_def only_admins_can_delete_def

lemma get_user_role_anonymous: "get_user_role ps None = None"
  by (simp add: get_user_role_def sql_eq_def is_true_def)

lemma lead_select_allowed_iff:
  "lead_select_allowed ps uid bl \<longleftrightarrow> get_user_role ps uid \<noteq> None"
proof (cases "get_user_role ps uid")
  case None
  then show ?thesis
    by (simp add: lead_select_allowed_def policy_defs is_true_sql_or is_true_sql_eq is_true_sql_in)
next
  case (Some r)
  then show ?thesis
    by (cases r)
      (simp_all add: lead_select_allowed_def policy_defs is_true_sql_or is_true_sql_eq is_true_sql_in)
qed

lemma lead_insert_allowed_iff:
  "lead_insert_allowed ps uid bl \<longleftrightarrow> get_user_role ps uid \<in> {Some Admin, Some Agent}"
  by (auto simp: lead_insert_allowed_def policy_defs is_true_sql_or is_true_sql_eq is_true_sql_in)

lemma lead_update_using_iff:
  "lead_update_using ps uid bl \<longleftrightarrow>
     get_user_role ps uid = Some Admin \<or>
     (uid \<noteq> None \<and> (created_by bl = uid \<or> assigned_to bl = uid))"
  by (auto simp: lead_update_using_def policy_defs is_true_sql_or is_true_sql_eq)

lemma lead_delete_allowed_iff:
  "lead_delete_allowed ps uid bl \<longleftrightarrow> get_user_role ps uid = Some Admin"
  by (auto simp: lead_delete_allowed_def policy_defs is_true_sql_or is_true_sql_eq)

lemma activity_lead_accessible_iff:
  "is_true (activity_lead_accessible ps uid la bl) \<longleftrightarrow>
     bl_id bl = lead_id la \<and>
     (get_user_role ps uid = Some Admin \<or>
      (uid \<noteq> None \<and> (created_by bl = uid \<or> assigned_to bl = uid)))"
  by (auto simp: activity_lead_accessible_def is_true_sql_or is_true_sql_and is_true_sql_eq)

text \<open>
  Claim C1, as the policies have it. A caller may read a \<^verbatim>\<open>lead_activities\<close> row exactly
  when some row of \<^verbatim>\<open>buyer_leads\<close> is the activity's parent, the caller may read that
  lead, and the caller is an admin, the lead's creator or the lead's assignee, which is the
  predicate that guards updates of the lead. Permission to read the parent lead is
  necessary and not sufficient.
\<close>

theorem activity_read_is_lead_write:
  "activity_select_allowed db uid la \<longleftrightarrow>
     (\<exists>bl \<in> set (buyer_leads db).
        bl_id bl = lead_id la \<and> lead_select_allowed (profiles db) uid bl \<and>
        lead_update_using (profiles db) uid bl)"
  by (auto simp: activity_select_allowed_def filter_empty_conv activity_lead_accessible_iff
        lead_update_using_iff)

theorem activity_read_counterexample:
  "lead_id example_activity = bl_id example_lead \<and>
   get_user_role (profiles example_db) (Some 2) = Some Agent \<and>
   lead_select_allowed (profiles example_db) (Some 2) example_lead \<and>
   \<not> activity_select_allowed example_db (Some 2) example_activity"
  by (simp add: activity_select_allowed_def activity_lead_accessible_iff lead_select_allowed_iff
        example_db_def example_lead_def example_activity_def example_profiles_def
        get_user_role_def is_true_sql_eq)

theorem activity_read_is_lead_write_witness:
  "activity_select_allowed example_db (Some 1) example_activity"
  using activity_read_is_lead_write [of example_db "Some 1" example_activity]
  by (simp add: lead_select_allowed_iff lead_update_using_iff
        example_db_def example_lead_def example_activity_def example_profiles_def
        get_user_role_def is_true_sql_eq)

text \<open>
  Claim C2, as the policies have it. For a caller whose role is \<^verbatim>\<open>viewer\<close> and every
  lead: the read is allowed, every insert is denied, every delete is denied, and an update
  is allowed exactly when the caller is the recorded creator or the assignee of the row,
  both before and after the update. The update policy does not look at the role of a
  creator or assignee.
\<close>

theorem viewer_policy:
  assumes "get_user_role ps uid = Some Viewer"
  shows "lead_select_allowed ps uid bl \<and>
         \<not> lead_insert_allowed ps uid new_row \<and>
         \<not> lead_delete_allowed ps uid bl \<and>
         (lead_update_allowed ps uid bl new_row \<longleftrightarrow>
           (created_by bl = uid \<or> assigned_to bl = uid) \<and>
           (created_by new_row = uid \<or> assigned_to new_row = uid))"
proof -
  have "uid \<noteq> None"
  proof
    assume "uid = None"
    with assms show False by (simp add: get_user_role_anonymous)
  qed
  with assms show ?thesis
    by (simp add: lead_select_allowed_iff lead_insert_allowed_iff lead_delete_allowed_iff
          lead_update_allowed_def lead_update_using_iff)
qed

theorem viewer_policy_witness:
  "get_user_role example_profiles (Some 3) = Some Viewer \<and>
   lead_select_allowed example_profiles (Some 3) example_lead \<and>
   \<not> lead_insert_allowed example_profiles (Some 3) example_lead \<and>
   \<not> lead_delete_allowed example_profiles (Some 3) example_lead \<and>
   \<not> lead_update_allowed example_profiles (Some 3) example_lead example_lead"
proof -
  have r: "get_user_role example_profiles (Some 3) = Some Viewer"
    by (simp add: example_profiles_def get_user_role_def is_true_sql_eq)
  show ?thesis
    using r viewer_policy [OF r, of example_lead example_lead]
    by (simp add: example_lead_def)
qed

theorem viewer_update_counterexample:
  "get_user_role example_profiles (Some 3) = Some Viewer \<and>
   lead_update_allowed example_profiles (Some 3)
     (example_lead\<lparr>assigned_to := Some 3\<rparr>)
     (example_lead\<lparr>assigned_to := Some 3, status := Some Closed\<rparr>)"
  by (simp add: lead_update_allowed_def lead_update_using_iff
        example_profiles_def get_user_role_def is_true_sql_eq)

section \<open>Facts about the constraints of the table\<close>

lemma col_in_Val:
  "col_in conv e (Val v) keep = Inr r \<longleftrightarrow> conv v \<noteq> None \<and> r = conv v"
  by (cases "conv v") auto

lemma assign_columns_Inr:
  assumes "assign_columns q bl = Inr bl'"
  shows "col_in int4_in Integer_out_of_range (q_priority q) (priority bl) = Inr (priority bl')"
    and "col_in lead_status_in Invalid_enum_value (q_status q) (status bl) = Inr (status bl')"
    and "col_in lead_source_in Invalid_enum_value (q_source q) (source bl) = Inr (source bl')"
  using assms by (auto simp: assign_columns_def split: sum.splits)

lemma assign_columns_priority:
  assumes "assign_columns q bl = Inr bl'" and "q_priority q = Val p"
  shows "priority bl' = Some p"
  using assign_columns_Inr(1) [OF assms(1)] assms(2)
  by (simp add: col_in_Val int4_in_def del: col_in.simps split: if_splits)

lemma assign_columns_status:
  assumes "assign_columns q bl = Inr bl'" and "q_status q = Val s"
  shows "lead_status_in s \<noteq> None"
  using assign_columns_Inr(2) [OF assms(1)] assms(2)
  by (simp add: col_in_Val del: col_in.simps)

lemma assign_columns_source:
  assumes "assign_columns q bl = Inr bl'" and "q_source q = Val s"
  shows "lead_source_in s \<noteq> None"
  using assign_columns_Inr(3) [OF assms(1)] assms(2)
  by (simp add: col_in_Val del: col_in.simps)

lemma lead_status_in_None:
  "s \<notin> set lead_status_labels \<Longrightarrow> lead_status_in s = None"
  by (simp add: lead_status_in_def lead_status_labels_def)

lemma lead_source_in_None:
  "s \<notin> set lead_source_labels \<Longrightarrow> lead_source_in s = None"
  by (simp add: lead_source_in_def lead_source_labels_def)

lemma lead_status_text_label: "lead_status_text st \<in> set lead_status_labels"
  by (cases st) (simp_all add: lead_status_labels_def)

lemma lead_source_text_label: "lead_source_text src \<in> set lead_source_labels"
  by (cases src) (simp_all add: lead_source_labels_def)

lemma priority_range: "\<not> p < 1 \<Longrightarrow> \<not> 5 < p \<Longrightarrow> p \<in> {1, 2, 3, 4, 5::int}"
  by auto

lemma sql_and_Some: "sql_and (Some a) (Some b) = Some (a \<and> b)"
  by (cases a; cases b) simp_all

lemma priority_check_iff:
  "priority_check bl = Some False \<longleftrightarrow> (\<exists>p. priority bl = Some p \<and> (p < 1 \<or> 5 < p))"
  by (cases "priority bl") (auto simp: priority_check_def sql_le_def sql_and_Some)

lemma check_constraints_valid:
  assumes "check_constraints bl = None"
  shows "lead_valid bl"
proof -
  have "case priority bl of None \<Rightarrow> True | Some p \<Rightarrow> p \<in> {1, 2, 3, 4, 5}"
  proof (cases "priority bl")
    case None
    then show ?thesis by simp
  next
    case (Some p)
    with assms have "\<not> p < 1" "\<not> 5 < p"
      by (simp_all add: check_constraints_def priority_check_iff split: if_splits)
    with Some show ?thesis using priority_range [of p] by simp
  qed
  then show ?thesis
    by (simp add: lead_valid_def lead_status_text_label lead_source_text_label
          split: option.splits)
qed

lemma check_constraints_priority:
  "priority bl = Some p \<Longrightarrow> p < 1 \<or> 5 < p \<Longrightarrow> check_constraints bl \<noteq> None"
  by (simp add: check_constraints_def priority_check_iff)

lemma insert_buyer_lead_Inr:
  assumes "insert_buyer_lead uid now q db = Inr db'"
  obtains bl where "assign_columns q (default_row (gen_random_uuid (buyer_leads db)) now) = Inr bl"
    and "check_constraints bl = None" and "db' = db\<lparr>buyer_leads := buyer_leads db @ [bl]\<rparr>"
  using assms
  by (auto simp: insert_buyer_lead_def split: sum.splits if_splits option.splits)

lemma update_row_Inr:
  assumes "update_row ps uid now q bl = Inr bl'"
  obtains a where "assign_columns q bl = Inr a" and "bl' = update_updated_at_column now a"
    and "check_constraints bl' = None"
  using assms
  by (auto simp: update_row_def Let_def split: sum.splits if_splits option.splits)

lemma outside_sets_assign:
  assumes "outside_sets q" and "assign_columns q bl = Inr a"
  shows "\<exists>p. priority a = Some p \<and> (p < 1 \<or> 5 < p)"
proof -
  from assms(1) consider
      p where "q_priority q = Val p" "p \<notin> {1, 2, 3, 4, 5}"
    | s where "q_status q = Val s" "s \<notin> set lead_status_labels"
    | s where "q_source q = Val s" "s \<notin> set lead_source_labels"
    by (auto simp: outside_sets_def split: col.splits)
  then show ?thesis
  proof cases
    case 1
    from assign_columns_priority [OF assms(2) 1(1)] 1(2) show ?thesis
      using priority_range [of p] by auto
  next
    case 2
    with assign_columns_status [OF assms(2)] lead_status_in_None show ?thesis by blast
  next
    case 3
    with assign_columns_source [OF assms(2)] lead_source_in_None show ?thesis by blast
  qed
qed

lemma outside_sets_insert: "outside_sets q \<Longrightarrow> \<exists>e. insert_buyer_lead uid now q db = Inl e"
proof (cases "insert_buyer_lead uid now q db")
  case (Inl e)
  then show ?thesis by blast
next
  case (Inr db')
  assume o: "outside_sets q"
  from Inr obtain bl where a: "assign_columns q (default_row (gen_random_uuid (buyer_leads db)) now) = Inr bl"
    and c: "check_constraints bl = None"
    by (rule insert_buyer_lead_Inr)
  from outside_sets_assign [OF o a] c show ?thesis
    using check_constraints_priority by blast
qed

lemma outside_sets_update_row: "outside_sets q \<Longrightarrow> \<exists>e. update_row ps uid now q bl = Inl e"
proof (cases "update_row ps uid now q bl")
  case (Inl e)
  then show ?thesis by blast
next
  case (Inr bl')
  assume o: "outside_sets q"
  from Inr obtain a where a: "assign_columns q bl = Inr a"
    and b: "bl' = update_updated_at_column now a" and c: "check_constraints bl' = None"
    by (rule update_row_Inr)
  from outside_sets_assign [OF o a] b have "\<exists>p. priority bl' = Some p \<and> (p < 1 \<or> 5 < p)"
    by (simp add: update_updated_at_column_def)
  with c show ?thesis
    using check_constraints_priority by blast
qed

lemma update_rows_valid:
  assumes "list_all lead_valid bls" and "update_rows ps uid now target q bls = Inr bls'"
  shows "list_all lead_valid bls'"
  using assms
proof (induction bls arbitrary: bls')
  case Nil
  then show ?case by simp
next
  case (Cons bl bls)
  then show ?case
    by (auto split: if_splits sum.splits elim!: update_row_Inr dest: check_constraints_valid)
qed

lemma update_rows_reached:
  assumes "outside_sets q" and "list_ex (update_reaches ps uid target) bls"
  shows "\<exists>e. update_rows ps uid now target q bls = Inl e"
  using assms(2)
proof (induction bls)
  case Nil
  then show ?case by simp
next
  case (Cons bl bls)
  show ?case
  proof (cases "update_reaches ps uid target bl")
    case True
    from outside_sets_update_row [OF assms(1), of ps uid now bl]
    obtain e where "update_row ps uid now q bl = Inl e" by blast
    with True show ?thesis by simp
  next
    case False
    with Cons.prems have "list_ex (update_reaches ps uid target) bls" by simp
    from Cons.IH [OF this] obtain e where "update_rows ps uid now target q bls = Inl e" by blast
    with False show ?thesis by simp
  qed
qed

lemma update_rows_not_reached:
  assumes "\<not> list_ex (update_reaches ps uid target) bls"
  shows "update_rows ps uid now target q bls = Inr bls"
  using assms by (induction bls) simp_all

lemma update_rows_Inr:
  assumes "update_rows ps uid now target q bls = Inr bls'"
  shows "list_all2 (\<lambda>old_row new_row.
           if update_reaches ps uid target old_row
           then update_row ps uid now q old_row = Inr new_row
           else new_row = old_row) bls bls'"
  using assms
proof (induction bls arbitrary: bls')
  case Nil
  then show ?case by simp
next
  case (Cons bl bls)
  show ?case
  proof (cases "update_reaches ps uid target bl")
    case True
    with Cons.prems obtain bl' rest where "update_row ps uid now q bl = Inr bl'"
      and "update_rows ps uid now target q bls = Inr rest" and "bls' = bl' # rest"
      by (auto split: sum.splits)
    with True Cons.IH [of rest] show ?thesis by simp
  next
    case False
    with Cons.prems obtain rest where "update_rows ps uid now target q bls = Inr rest"
      and "bls' = bl # rest"
      by (auto split: sum.splits)
    with False Cons.IH [of rest] show ?thesis by simp
  qed
qed

text \<open>
  Claim C8, as the schema has it. The three columns are nullable, so the invariant of the
  stored leads is: the priority is NULL or one of 1 to 5, the status is NULL or one of the
  five labels, the source is NULL or one of the six labels. An INSERT that succeeds appends
  one row, an UPDATE that succeeds rewrites the rows it reaches and no other, and both keep
  the invariant. A statement that supplies a priority outside 1 to 5, or a status or source
  that is no label, is rejected and the table stays as it was: the INSERT always, the
  UPDATE whenever it reaches a row; an UPDATE that reaches no row reports no error and
  changes nothing.
\<close>

theorem stored_leads_valid:
  assumes "\<forall>bl \<in> set (buyer_leads db). lead_valid bl"
  shows "(\<forall>db'. insert_buyer_lead uid now q db = Inr db' \<longrightarrow>
            (\<exists>bl. db' = db\<lparr>buyer_leads := buyer_leads db @ [bl]\<rparr>) \<and>
            (\<forall>bl \<in> set (buyer_leads db'). lead_valid bl)) \<and>
         (\<forall>db'. update_buyer_lead uid now target q db = Inr db' \<longrightarrow>
            db' = db\<lparr>buyer_leads := buyer_leads db'\<rparr> \<and>
            list_all2 (\<lambda>old_row new_row.
               if update_reaches (profiles db) uid target old_row
               then update_row (profiles db) uid now q old_row = Inr new_row
               else new_row = old_row) (buyer_leads db) (buyer_leads db') \<and>
            (\<forall>bl \<in> set (buyer_leads db'). lead_valid bl)) \<and>
         (outside_sets q \<longrightarrow>
            (\<exists>e. insert_buyer_lead uid now q db = Inl e) \<and>
            (if list_ex (update_reaches (profiles db) uid target) (buyer_leads db)
             then \<exists>e. update_buyer_lead uid now target q db = Inl e
             else update_buyer_lead uid now target q db = Inr db))"
proof (intro conjI allI impI)
  fix db'
  assume "insert_buyer_lead uid now q db = Inr db'"
  then obtain bl where "check_constraints bl = None"
    and d: "db' = db\<lparr>buyer_leads := buyer_leads db @ [bl]\<rparr>"
    by (rule insert_buyer_lead_Inr)
  with assms show "\<forall>bl \<in> set (buyer_leads db'). lead_valid bl"
    by (auto dest: check_constraints_valid)
  from d show "\<exists>bl. db' = db\<lparr>buyer_leads := buyer_leads db @ [bl]\<rparr>" by blast
next
  fix db'
  assume "update_buyer_lead uid now target q db = Inr db'"
  then obtain bls where u: "update_rows (profiles db) uid now target q (buyer_leads db) = Inr bls"
    and d: "db' = db\<lparr>buyer_leads := bls\<rparr>"
    by (auto simp: update_buyer_lead_def split: sum.splits)
  from assms have "list_all lead_valid (buyer_leads db)"
    by (simp add: list_all_iff)
  from update_rows_valid [OF this u] d show "\<forall>bl \<in> set (buyer_leads db'). lead_valid bl"
    by (simp add: list_all_iff)
  from d show "db' = db\<lparr>buyer_leads := buyer_leads db'\<rparr>" by simp
  from update_rows_Inr [OF u] d
  show "list_all2 (\<lambda>old_row new_row.
               if update_reaches (profiles db) uid target old_row
               then update_row (profiles db) uid now q old_row = Inr new_row
               else new_row = old_row) (buyer_leads db) (buyer_leads db')"
    by simp
next
  assume "outside_sets q"
  then show "\<exists>e. insert_buyer_lead uid now q db = Inl e"
    by (rule outside_sets_insert)
next
  assume o: "outside_sets q"
  show "if list_ex (update_reaches (profiles db) uid target) (buyer_leads db)
        then \<exists>e. update_buyer_lead uid now target q db = Inl e
        else update_buyer_lead uid now target q db = Inr db"
  proof (cases "list_ex (update_reaches (profiles db) uid target) (buyer_leads db)")
    case True
    from update_rows_reached [OF o True, of now] True show ?thesis
      by (auto simp: update_buyer_lead_def)
  next
    case False
    from update_rows_not_reached [OF False, of now q] False show ?thesis
      by (simp add: update_buyer_lead_def)
  qed
qed

lemma example_db_valid: "list_all lead_valid (buyer_leads example_db)"
  by (simp add: example_db_def example_lead_def lead_valid_def lead_status_labels_def
        lead_source_labels_def)

lemma agent_role: "get_user_role example_profiles (Some 2) = Some Agent"
  by (simp add: example_profiles_def get_user_role_def is_true_sql_eq)

lemma admin_role: "get_user_role example_profiles (Some 1) = Some Admin"
  by (simp add: example_profiles_def get_user_role_def is_true_sql_eq)

lemma admin_reaches: "list_ex (update_reaches (profiles example_db) (Some 1) 10) (buyer_leads example_db)"
  by (simp add: example_db_def update_reaches_def lead_select_allowed_iff lead_update_using_iff
        admin_role [unfolded One_nat_def] example_lead_def)

lemma agent_reaches_nothing:
  "\<not> list_ex (update_reaches (profiles example_db) (Some 2) 10) (buyer_leads example_db)"
  by (simp add: example_db_def update_reaches_def lead_update_using_iff agent_role)
    (simp add: example_lead_def)

theorem null_priority_counterexample:
  "(case insert_buyer_lead (Some 2) 5 (example_request\<lparr>q_priority := Null\<rparr>) example_db of
      Inl e \<Rightarrow> False
    | Inr db' \<Rightarrow> map priority (buyer_leads db') = [Some 3, None]) \<and>
   outside_sets (example_request\<lparr>q_priority := Val 7\<rparr>) \<and>
   update_buyer_lead (Some 2) 5 10 (example_request\<lparr>q_priority := Val 7\<rparr>) example_db
     = Inr example_db"
proof -
  have "update_buyer_lead (Some 2) 5 10 (example_request\<lparr>q_priority := Val 7\<rparr>) example_db
     = Inr example_db"
    using update_rows_not_reached [OF agent_reaches_nothing]
    by (simp add: update_buyer_lead_def)
  moreover have "outside_sets (example_request\<lparr>q_priority := Val 7\<rparr>)"
    by (simp add: outside_sets_def example_request_def)
  moreover have "(case insert_buyer_lead (Some 2) 5 (example_request\<lparr>q_priority := Null\<rparr>) example_db of
      Inl e \<Rightarrow> False
    | Inr db' \<Rightarrow> map priority (buyer_leads db') = [Some 3, None])"
    by (simp add: insert_buyer_lead_def assign_columns_def example_request_def example_db_def
        default_row_def lead_insert_allowed_iff agent_role check_constraints_def
        priority_check_iff lead_status_in_def lead_source_in_def example_lead_def)
  ultimately show ?thesis by simp
qed

theorem stored_leads_valid_witness:
  "list_all lead_valid (buyer_leads example_db) \<and>
   (case insert_buyer_lead (Some 2) 5 example_request example_db of
      Inl e \<Rightarrow> False
    | Inr db' \<Rightarrow> length (buyer_leads db') = 2 \<and> list_all lead_valid (buyer_leads db')) \<and>
   outside_sets (example_request\<lparr>q_priority := Val 7\<rparr>) \<and>
   isl (insert_buyer_lead (Some 2) 5 (example_request\<lparr>q_priority := Val 7\<rparr>) example_db) \<and>
   list_ex (update_reaches (profiles example_db) (Some 1) 10) (buyer_leads example_db) \<and>
   isl (update_buyer_lead (Some 1) 5 10 (example_request\<lparr>q_priority := Val 7\<rparr>) example_db)"
proof -
  have v: "\<forall>bl \<in> set (buyer_leads example_db). lead_valid bl"
    using example_db_valid by (simp add: list_all_iff)
  have o: "outside_sets (example_request\<lparr>q_priority := Val 7\<rparr>)"
    by (simp add: outside_sets_def example_request_def)
  have "\<exists>d. insert_buyer_lead (Some 2) 5 example_request example_db = Inr d"
    by (simp add: insert_buyer_lead_def assign_columns_def example_request_def example_db_def
          default_row_def lead_insert_allowed_iff agent_role check_constraints_def
          priority_check_iff lead_status_in_def lead_source_in_def int4_in_def)
  then obtain d where d: "insert_buyer_lead (Some 2) 5 example_request example_db = Inr d"
    by blast
  from stored_leads_valid [where db = example_db and uid = "Some 2" and now = 5
      and q = example_request, OF v]
  have "(\<exists>bl. d = example_db\<lparr>buyer_leads := buyer_leads example_db @ [bl]\<rparr>) \<and>
        (\<forall>bl \<in> set (buyer_leads d). lead_valid bl)"
    using d by blast
  then obtain bl where "d = example_db\<lparr>buyer_leads := buyer_leads example_db @ [bl]\<rparr>"
    and 1: "list_all lead_valid (buyer_leads d)"
    by (auto simp: list_all_iff)
  then have 2: "length (buyer_leads d) = 2"
    by (simp add: example_db_def)
  from stored_leads_valid [where db = example_db and uid = "Some 2" and now = 5 and target = 10
      and q = "example_request\<lparr>q_priority := Val 7\<rparr>", OF v]
  have "\<exists>e. insert_buyer_lead (Some 2) 5 (example_request\<lparr>q_priority := Val 7\<rparr>) example_db = Inl e"
    using o by blast
  then have 3: "isl (insert_buyer_lead (Some 2) 5 (example_request\<lparr>q_priority := Val 7\<rparr>) example_db)"
    by auto
  from stored_leads_valid [where db = example_db and uid = "Some 1" and now = 5 and target = 10
      and q = "example_request\<lparr>q_priority := Val 7\<rparr>", OF v]
  have "if list_ex (update_reaches (profiles example_db) (Some 1) 10) (buyer_leads example_db)
        then \<exists>e. update_buyer_lead (Some 1) 5 10 (example_request\<lparr>q_priority := Val 7\<rparr>) example_db = Inl e
        else update_buyer_lead (Some 1) 5 10 (example_request\<lparr>q_priority := Val 7\<rparr>) example_db = Inr example_db"
    using o by blast
  with admin_reaches
  have 4: "isl (update_buyer_lead (Some 1) 5 10 (example_request\<lparr>q_priority := Val 7\<rparr>) example_db)"
    by auto
  from example_db_valid d 1 2 o 3 4 admin_reaches show ?thesis by simp
qed

section \<open>The import: rejection of the file and the tally of the rows\<close>

lemma import_row_length:
  assumes "import_row rt now user_id headers line db = Inr db'"
  shows "length (buyer_leads db') = Suc (length (buyer_leads db))"
proof -
  from assms obtain q where "insert_buyer_lead (Some user_id) now q db = Inr db'"
    by (auto simp: import_row_def import_values_def Let_def split: sum.splits)
  then show ?thesis
    by (rule insert_buyer_lead_Inr) simp
qed

lemma import_loop_tally:
  assumes "import_loop rt clock user_id headers dataLines i successCount errs db = (s', e', db')"
    and "\<forall>line \<in> set dataLines. trim line \<noteq> []"
  shows "s' + length e' = successCount + length errs + length dataLines \<and>
         successCount \<le> s' \<and>
         length (buyer_leads db') = length (buyer_leads db) + (s' - successCount) \<and>
         (\<exists>new. e' = errs @ new \<and> sorted_wrt (<) (map fst new) \<and>
                (\<forall>row \<in> set (map fst new). i + 2 \<le> row \<and> row < i + 2 + length dataLines))"
  using assms
proof (induction dataLines arbitrary: i successCount errs db)
  case Nil
  then show ?case by simp
next
  case (Cons line dataLines)
  from Cons.prems(2) have nb: "trim line \<noteq> []" and rest: "\<forall>line \<in> set dataLines. trim line \<noteq> []"
    by simp_all
  show ?case
  proof (cases "import_row rt (clock i) user_id headers line db")
    case (Inl e)
    with Cons.prems(1) nb
    have "import_loop rt clock user_id headers dataLines (i + 1) successCount (errs @ [(i + 2, e)]) db
            = (s', e', db')"
      by simp
    from Cons.IH [OF this rest] obtain new where
      1: "s' + length e' = successCount + length (errs @ [(i + 2, e)]) + length dataLines"
      and 2: "successCount \<le> s'"
      and 3: "length (buyer_leads db') = length (buyer_leads db) + (s' - successCount)"
      and 4: "e' = (errs @ [(i + 2, e)]) @ new" "sorted_wrt (<) (map fst new)"
        "\<forall>row \<in> set (map fst new). i + 1 + 2 \<le> row \<and> row < i + 1 + 2 + length dataLines"
      by blast
    from 4 have "e' = errs @ ((i + 2, e) # new) \<and> sorted_wrt (<) (map fst ((i + 2, e) # new)) \<and>
      (\<forall>row \<in> set (map fst ((i + 2, e) # new)). i + 2 \<le> row \<and> row < i + 2 + length (line # dataLines))"
      by auto
    with 1 2 3 show ?thesis by (intro conjI exI [of _ "(i + 2, e) # new"]) simp_all
  next
    case (Inr d)
    with Cons.prems(1) nb
    have "import_loop rt clock user_id headers dataLines (i + 1) (successCount + 1) errs d
            = (s', e', db')"
      by simp
    from Cons.IH [OF this rest] obtain new where
      1: "s' + length e' = successCount + 1 + length errs + length dataLines"
      and 2: "successCount + 1 \<le> s'"
      and 3: "length (buyer_leads db') = length (buyer_leads d) + (s' - (successCount + 1))"
      and 4: "e' = errs @ new" "sorted_wrt (<) (map fst new)"
        "\<forall>row \<in> set (map fst new). i + 1 + 2 \<le> row \<and> row < i + 1 + 2 + length dataLines"
      by blast
    from 4 have "e' = errs @ new \<and> sorted_wrt (<) (map fst new) \<and>
      (\<forall>row \<in> set (map fst new). i + 2 \<le> row \<and> row < i + 2 + length (line # dataLines))"
      by auto
    with 1 2 3 import_row_length [OF Inr] show ?thesis
      by (intro conjI exI [of _ new]) simp_all
  qed
qed

lemma import_loop_outcomes:
  assumes "\<forall>line \<in> set dataLines. trim line \<noteq> []"
  shows "\<exists>outcomes. length outcomes = length dataLines \<and>
           (\<forall>k < length dataLines.
              outcomes ! k = import_row rt (clock (i + k)) user_id headers (dataLines ! k)
                               (db_after db (take k outcomes))) \<and>
           import_loop rt clock user_id headers dataLines i successCount errs db =
             (successCount + length (filter (\<lambda>outcome. \<not> isl outcome) outcomes),
              errs @ recorded_errors i outcomes, db_after db outcomes)"
  using assms
proof (induction dataLines arbitrary: i successCount errs db)
  case Nil
  then show ?case by simp
next
  case (Cons line dataLines)
  from Cons.prems have nb: "trim line \<noteq> []" and rest: "\<forall>line \<in> set dataLines. trim line \<noteq> []"
    by simp_all
  define outcome where "outcome = import_row rt (clock i) user_id headers line db"
  define d where "d = db_after db [outcome]"
  define s where "s = (if isl outcome then successCount else successCount + 1)"
  define es where "es = errs @ recorded_errors i [outcome]"
  from Cons.IH [OF rest, of "i + 1" d s es] obtain outcomes where
    1: "length outcomes = length dataLines"
    and 2: "\<forall>k < length dataLines.
              outcomes ! k = import_row rt (clock (i + 1 + k)) user_id headers (dataLines ! k)
                               (db_after d (take k outcomes))"
    and 3: "import_loop rt clock user_id headers dataLines (i + 1) s es d =
             (s + length (filter (\<lambda>outcome. \<not> isl outcome) outcomes),
              es @ recorded_errors (i + 1) outcomes, db_after d outcomes)"
    by blast
  have a: "db_after db (outcome # rest) = db_after d rest" for rest
    by (cases outcome) (simp_all add: d_def)
  have b: "errs @ recorded_errors i (outcome # outcomes) = es @ recorded_errors (i + 1) outcomes"
    by (cases outcome) (simp_all add: es_def)
  have c: "import_loop rt clock user_id headers (line # dataLines) i successCount errs db =
           import_loop rt clock user_id headers dataLines (i + 1) s es d"
    using nb by (cases outcome) (simp_all add: outcome_def [symmetric] s_def es_def d_def)
  have "\<forall>k < length (line # dataLines).
          (outcome # outcomes) ! k = import_row rt (clock (i + k)) user_id headers ((line # dataLines) ! k)
                               (db_after db (take k (outcome # outcomes)))"
  proof (intro allI impI)
    fix k
    assume k: "k < length (line # dataLines)"
    show "(outcome # outcomes) ! k = import_row rt (clock (i + k)) user_id headers ((line # dataLines) ! k)
                               (db_after db (take k (outcome # outcomes)))"
    proof (cases k)
      case 0
      then show ?thesis by (simp add: outcome_def)
    next
      case (Suc j)
      with k 2 a show ?thesis by simp
    qed
  qed
  moreover have "length (outcome # outcomes) = length (line # dataLines)"
    using 1 by simp
  moreover have "import_loop rt clock user_id headers (line # dataLines) i successCount errs db =
             (successCount + length (filter (\<lambda>outcome. \<not> isl outcome) (outcome # outcomes)),
              errs @ recorded_errors i (outcome # outcomes), db_after db (outcome # outcomes))"
    unfolding c 3 a b by (simp add: s_def)
  ultimately show ?case by blast
qed

lemma csv_lines_nonblank: "\<forall>line \<in> set (csv_lines text). trim line \<noteq> []"
  by (simp add: csv_lines_def)

lemma trim_Nil: "trim [] = []"
  by (simp add: trim_def)

lemma csv_lines_le: "length (csv_lines text) \<le> length (filter (\<lambda>line. line \<noteq> []) (split newline text))"
proof -
  have "csv_lines text = filter (\<lambda>line. trim line \<noteq> []) (filter (\<lambda>line. line \<noteq> []) (split newline text))"
    by (auto simp: csv_lines_def trim_Nil intro: filter_cong)
  then show ?thesis
    by (metis length_filter_le)
qed

text \<open>
  Claim C5. When the text has fewer than two non-empty lines (lines that are empty or all
  white space do not count), or a name of \<^verbatim>\<open>first_name\<close>, \<^verbatim>\<open>last_name\<close>, \<^verbatim>\<open>email\<close>
  is missing among the normalised headers of the first line, the import ends with the
  \<^verbatim>\<open>Import Error\<close> and the database is the one it started with: no row is processed and
  no lead is inserted.
\<close>

theorem import_rejected_as_a_whole:
  assumes "length (filter (\<lambda>line. line \<noteq> []) (split newline text)) < 2 \<or>
           length (csv_lines text) < 2 \<or>
           \<not> set requiredFields \<subseteq> set (csv_headers (csv_lines text))"
  shows "\<exists>message. handleFileImport rt clock user_id text db = (Import_Error message, db)"
proof (cases "length (csv_lines text) < 2")
  case True
  then show ?thesis by (simp add: handleFileImport_def)
next
  case False
  with assms csv_lines_le [of "text"]
  have "\<not> set requiredFields \<subseteq> set (csv_headers (csv_lines text))"
    by auto
  then have "filter (\<lambda>field. field \<notin> set (csv_headers (csv_lines text))) requiredFields \<noteq> []"
    by (auto simp: filter_empty_conv)
  with False show ?thesis by (simp add: handleFileImport_def Let_def)
qed

text \<open>
  Claim C6. When the text passes the line count and the header check, the import ends with
  a result, never with the import error, and the total is the number of data lines. Every
  data line is attempted, in the order of the file: there is one outcome for each data
  line, the outcome of line \<open>k\<close> is that of \<^verbatim>\<open>import_row\<close> on that line in the database
  left by the lines before it, whether those failed or not. The report is read off these
  outcomes: \<^verbatim>\<open>errors\<close> holds the failures with their row numbers, \<^verbatim>\<open>success\<close> counts the
  others, and the database at the end is the one after the last outcome. So the two add
  up to the total, every success inserted one lead, and the recorded row numbers increase
  and lie between 2 and total + 1.
\<close>

theorem import_attempts_every_row:
  assumes "2 \<le> length (csv_lines text)"
    and "set requiredFields \<subseteq> set (csv_headers (csv_lines text))"
  shows "\<exists>r db' outcomes. handleFileImport rt clock user_id text db = (Import_Result r, db') \<and>
           total r = length (csv_lines text) - 1 \<and>
           length outcomes = total r \<and>
           (\<forall>k < total r.
              outcomes ! k = import_row rt (clock k) user_id (csv_headers (csv_lines text))
                               (csv_lines text ! (k + 1)) (db_after db (take k outcomes))) \<and>
           errors r = recorded_errors 0 outcomes \<and>
           success r = length (filter (\<lambda>outcome. \<not> isl outcome) outcomes) \<and>
           db' = db_after db outcomes \<and>
           success r + length (errors r) = total r \<and>
           length (buyer_leads db') = length (buyer_leads db) + success r \<and>
           sorted_wrt (<) (map fst (errors r)) \<and>
           (\<forall>row \<in> set (map fst (errors r)). 2 \<le> row \<and> row \<le> total r + 1)"
proof -
  let ?lines = "csv_lines text"
  from csv_lines_nonblank [of "text"] have nb: "\<forall>line \<in> set (tl ?lines). trim line \<noteq> []"
    by (metis list.set_sel(2) tl_Nil)
  from import_loop_outcomes [OF nb, of rt clock 0 user_id "csv_headers ?lines" db 0 "[]"]
  obtain outcomes where
    1: "length outcomes = length (tl ?lines)"
    and 2: "\<forall>k < length (tl ?lines).
              outcomes ! k = import_row rt (clock k) user_id (csv_headers ?lines) (tl ?lines ! k)
                               (db_after db (take k outcomes))"
    and l: "import_loop rt clock user_id (csv_headers ?lines) (tl ?lines) 0 0 [] db =
             (length (filter (\<lambda>outcome. \<not> isl outcome) outcomes),
              recorded_errors 0 outcomes, db_after db outcomes)"
    by auto
  define r where "r = \<lparr>success = length (filter (\<lambda>outcome. \<not> isl outcome) outcomes),
    errors = recorded_errors 0 outcomes, total = length (tl ?lines)\<rparr>"
  from assms(2) have m: "filter (\<lambda>field. field \<notin> set (csv_headers ?lines)) requiredFields = []"
    by (auto simp: filter_empty_conv)
  from assms(1) m l
  have h: "handleFileImport rt clock user_id text db = (Import_Result r, db_after db outcomes)"
    by (simp add: handleFileImport_def Let_def r_def)
  have t: "total r = length ?lines - 1"
    by (simp add: r_def)
  have n: "tl ?lines ! k = ?lines ! (k + 1)" if "k < length (tl ?lines)" for k
    using that by (simp add: nth_tl)
  from 2 n have p: "\<forall>k < total r.
              outcomes ! k = import_row rt (clock k) user_id (csv_headers ?lines)
                               (?lines ! (k + 1)) (db_after db (take k outcomes))"
    by (simp add: r_def)
  from import_loop_tally [OF l nb]
  have y: "success r + length (errors r) = total r"
    "length (buyer_leads (db_after db outcomes)) = length (buyer_leads db) + success r"
    "sorted_wrt (<) (map fst (errors r))"
    "\<forall>row \<in> set (map fst (errors r)). 2 \<le> row \<and> row \<le> total r + 1"
    by (fastforce simp: r_def less_Suc_eq_le)+
  from 1 have o: "length outcomes = total r" "errors r = recorded_errors 0 outcomes"
    "success r = length (filter (\<lambda>outcome. \<not> isl outcome) outcomes)"
    by (simp_all add: r_def)
  show ?thesis
    using h t o p y by blast
qed

lemmas string_eval = trim_def is_space_def newline_def dquote_def toLowerCase_def lower_char_def

lemma example_csv_lines:
  "csv_lines example_csv = [''first_name,last_name,email'', ''John,Doe,john@x.com'', '',Smith,jane@x.com'']"
  by (simp add: csv_lines_def example_csv_def string_eval)

lemma standard_headers:
  "csv_headers (''first_name,last_name,email'' # dataLines) = [''first_name'', ''last_name'', ''email'']"
  by (simp add: csv_headers_def parseCsvLine_def string_eval)

lemma blank_line_csv_lines:
  "csv_lines blank_line_csv = [''first_name,last_name,email'', '',Smith,jane@x.com'']"
  by (simp add: csv_lines_def blank_line_csv_def string_eval)

lemma parse_row2: "parseCsvLine '',Smith,jane@x.com'' = [[], ''Smith'', ''jane@x.com'']"
  by (simp add: parseCsvLine_def string_eval)

lemma row2_fails:
  "\<exists>issues. import_row rt now user_id [''first_name'', ''last_name'', ''email''] '',Smith,jane@x.com'' db
     = Inl (ZodError (Required ''first_name'' # issues))"
  by (simp add: import_row_def import_values_def parse_row2 csvImportSchema_parse_def Let_def string_min1_def)

section \<open>The import: defaults\<close>

lemma assign_columns_fields:
  assumes "assign_columns q bl = Inr a"
  shows "bl_id a = bl_id bl"
    and "created_by a = col_set (q_created_by q) (created_by bl)"
    and "assigned_to a = col_set (q_assigned_to q) (assigned_to bl)"
    and "first_name a = col_set (q_first_name q) (first_name bl)"
    and "last_name a = col_set (q_last_name q) (last_name bl)"
    and "email a = col_set (q_email q) (email bl)"
    and "phone a = col_set (q_phone q) (phone bl)"
    and "preferred_areas a = col_set (q_preferred_areas q) (preferred_areas bl)"
    and "property_type a = col_set (q_property_type q) (property_type bl)"
    and "bl_notes a = col_set (q_notes q) (bl_notes bl)"
    and "col_in (numeric_in 12 2) Numeric_field_overflow (q_budget_min q) (budget_min bl) = Inr (budget_min a)"
    and "col_in (numeric_in 12 2) Numeric_field_overflow (q_budget_max q) (budget_max bl) = Inr (budget_max a)"
    and "col_in int4_in Integer_out_of_range (q_bedrooms q) (bedrooms bl) = Inr (bedrooms a)"
    and "col_in (numeric_in 3 1) Numeric_field_overflow (q_bathrooms q) (bathrooms bl) = Inr (bathrooms a)"
  using assms by (auto simp: assign_columns_def split: sum.splits)

lemma import_row_Inr:
  assumes "import_row rt now user_id headers line db = Inr db'"
  obtains v a where
    "csvImportSchema_parse (zod_email rt) (build_rowData headers (parseCsvLine line) Map.empty) = Inr v"
    and "assign_columns (insert_request (make_leadData rt user_id v))
           (default_row (gen_random_uuid (buyer_leads db)) now) = Inr a"
    and "db' = db\<lparr>buyer_leads := buyer_leads db @ [a]\<rparr>"
proof -
  from assms obtain v where
    v: "csvImportSchema_parse (zod_email rt) (build_rowData headers (parseCsvLine line) Map.empty) = Inr v"
    and i: "insert_buyer_lead (Some user_id) now (insert_request (make_leadData rt user_id v)) db = Inr db'"
    by (auto simp: import_row_def import_values_def Let_def split: sum.splits)
  from i obtain a where
    "assign_columns (insert_request (make_leadData rt user_id v))
       (default_row (gen_random_uuid (buyer_leads db)) now) = Inr a"
    and "db' = db\<lparr>buyer_leads := buyer_leads db @ [a]\<rparr>"
    by (rule insert_buyer_lead_Inr)
  with v that show thesis by blast
qed

lemma csvImportSchema_parse_Inr:
  assumes "csvImportSchema_parse is_email rowData = Inr v"
  shows "v_phone v = rowData ''phone''" "v_budget_min v = rowData ''budget_min''"
    "v_budget_max v = rowData ''budget_max''" "v_preferred_areas v = rowData ''preferred_areas''"
    "v_property_type v = rowData ''property_type''" "v_bedrooms v = rowData ''bedrooms''"
    "v_bathrooms v = rowData ''bathrooms''" "v_status v = rowData ''status''"
    "v_source v = rowData ''source''" "v_priority v = rowData ''priority''"
    "v_notes v = rowData ''notes''"
    "rowData ''first_name'' = Some (v_first_name v)" "rowData ''last_name'' = Some (v_last_name v)"
    "rowData ''email'' = Some (v_email v)" "is_email (v_email v)"
  using assms
  by (auto simp: csvImportSchema_parse_def Let_def string_min1_def string_email_def
        split: if_splits option.splits)

text \<open>
  Claim C4, as the import has it. For a data line that is validated and inserted, the lead
  that is stored has the source \<^verbatim>\<open>other\<close> when the row has no value for \<^verbatim>\<open>source\<close>, the
  status \<^verbatim>\<open>new\<close> when it has none for \<^verbatim>\<open>status\<close> and the priority 3 when it has none for
  \<^verbatim>\<open>priority\<close>; every other optional column without a value is stored as NULL, the
  preferred areas as the empty list.
\<close>

theorem import_defaults:
  assumes "import_row rt now user_id headers line db = Inr db'"
    and "rowData = build_rowData headers (parseCsvLine line) Map.empty"
  shows "\<exists>bl. buyer_leads db' = buyer_leads db @ [bl] \<and>
           (rowData ''source'' = None \<longrightarrow> source bl = Some Other) \<and>
           (rowData ''status'' = None \<longrightarrow> status bl = Some New) \<and>
           (rowData ''priority'' = None \<longrightarrow> priority bl = Some 3) \<and>
           (rowData ''phone'' = None \<longrightarrow> phone bl = None) \<and>
           (rowData ''budget_min'' = None \<longrightarrow> budget_min bl = None) \<and>
           (rowData ''budget_max'' = None \<longrightarrow> budget_max bl = None) \<and>
           (rowData ''preferred_areas'' = None \<longrightarrow> preferred_areas bl = Some []) \<and>
           (rowData ''property_type'' = None \<longrightarrow> property_type bl = None) \<and>
           (rowData ''bedrooms'' = None \<longrightarrow> bedrooms bl = None) \<and>
           (rowData ''bathrooms'' = None \<longrightarrow> bathrooms bl = None) \<and>
           (rowData ''notes'' = None \<longrightarrow> bl_notes bl = None)"
proof -
  from assms(1) obtain v a where
    v: "csvImportSchema_parse (zod_email rt) rowData = Inr v"
    and a: "assign_columns (insert_request (make_leadData rt user_id v))
              (default_row (gen_random_uuid (buyer_leads db)) now) = Inr a"
    and d: "db' = db\<lparr>buyer_leads := buyer_leads db @ [a]\<rparr>"
    unfolding assms(2) by (rule import_row_Inr)
  note f = assign_columns_fields [OF a] assign_columns_Inr [OF a]
  note p = csvImportSchema_parse_Inr [OF v]
  have "rowData ''source'' = None \<longrightarrow> source a = Some Other"
    using f(17) p(9)
    by (auto simp: insert_request_def make_leadData_def or_else_def truthy_def lead_source_in_def)
  moreover have "rowData ''status'' = None \<longrightarrow> status a = Some New"
    using f(16) p(8)
    by (auto simp: insert_request_def make_leadData_def or_else_def truthy_def lead_status_in_def)
  moreover have "rowData ''priority'' = None \<longrightarrow> priority a = Some 3"
    using f(15) p(10)
    by (auto simp: insert_request_def make_leadData_def truthy_def nullable_def int4_in_def)
  moreover have "rowData ''phone'' = None \<longrightarrow> phone a = None"
    using f(7) p(1) by (simp add: insert_request_def make_leadData_def or_null_def truthy_def nullable_def)
  moreover have "rowData ''budget_min'' = None \<longrightarrow> budget_min a = None"
    using f(11) p(2) by (auto simp: insert_request_def make_leadData_def truthy_def nullable_def)
  moreover have "rowData ''budget_max'' = None \<longrightarrow> budget_max a = None"
    using f(12) p(3) by (auto simp: insert_request_def make_leadData_def truthy_def nullable_def)
  moreover have "rowData ''preferred_areas'' = None \<longrightarrow> preferred_areas a = Some []"
    using f(8) p(4) by (simp add: insert_request_def make_leadData_def truthy_def)
  moreover have "rowData ''property_type'' = None \<longrightarrow> property_type a = None"
    using f(9) p(5) by (simp add: insert_request_def make_leadData_def or_null_def truthy_def nullable_def)
  moreover have "rowData ''bedrooms'' = None \<longrightarrow> bedrooms a = None"
    using f(13) p(6) by (auto simp: insert_request_def make_leadData_def truthy_def nullable_def)
  moreover have "rowData ''bathrooms'' = None \<longrightarrow> bathrooms a = None"
    using f(14) p(7) by (auto simp: insert_request_def make_leadData_def truthy_def nullable_def)
  moreover have "rowData ''notes'' = None \<longrightarrow> bl_notes a = None"
    using f(10) p(11) by (simp add: insert_request_def make_leadData_def or_null_def truthy_def nullable_def)
  ultimately show ?thesis using d by simp
qed

lemma parse_row1: "parseCsvLine ''John,Doe,john@x.com'' = [''John'', ''Doe'', ''john@x.com'']"
  by (simp add: parseCsvLine_def string_eval)

lemma import_values_john:
  assumes "zod_email rt ''john@x.com''"
  shows "import_values rt now 2 [''first_name'', ''last_name'', ''email'']
           [''John'', ''Doe'', ''john@x.com''] example_db
         = Inr (example_db\<lparr>buyer_leads := [example_lead, example_imported now]\<rparr>)"
  using assms
  by (simp add: import_values_def csvImportSchema_parse_def Let_def string_min1_def
        string_email_def make_leadData_def insert_request_def truthy_def or_null_def or_else_def
        nullable_def insert_buyer_lead_def assign_columns_def default_row_def
        gen_random_uuid_def lead_status_in_def lead_source_in_def int4_in_def
        lead_insert_allowed_iff agent_role check_constraints_def priority_check_iff
        example_db_def example_lead_def example_imported_def)

lemma example_email: "zod_email example_runtime ''john@x.com''"
  by (simp add: example_runtime_def)

theorem import_source_counterexample:
  "import_row example_runtime 100 2 [''first_name'', ''last_name'', ''email''] ''John,Doe,john@x.com''
     example_db = Inr (example_db\<lparr>buyer_leads := [example_lead, example_imported 100]\<rparr>) \<and>
   build_rowData [''first_name'', ''last_name'', ''email''] (parseCsvLine ''John,Doe,john@x.com'')
     Map.empty ''source'' = None \<and>
   source (example_imported 100) = Some Other \<and>
   source (example_imported 100) \<noteq> Some Website"
  by (simp add: import_row_def parse_row1 import_values_john [OF example_email]
        example_imported_def)

theorem import_defaults_witness:
  "import_row example_runtime 100 2 [''first_name'', ''last_name'', ''email''] ''John,Doe,john@x.com''
     example_db = Inr (example_db\<lparr>buyer_leads := [example_lead, example_imported 100]\<rparr>) \<and>
   map source (buyer_leads (example_db\<lparr>buyer_leads := [example_lead, example_imported 100]\<rparr>))
     = [Some Website, Some Other] \<and>
   map status (buyer_leads (example_db\<lparr>buyer_leads := [example_lead, example_imported 100]\<rparr>))
     = [Some New, Some New] \<and>
   map priority (buyer_leads (example_db\<lparr>buyer_leads := [example_lead, example_imported 100]\<rparr>))
     = [Some 3, Some 3]"
proof -
  have i: "import_row example_runtime 100 2 [''first_name'', ''last_name'', ''email'']
             ''John,Doe,john@x.com'' example_db
           = Inr (example_db\<lparr>buyer_leads := [example_lead, example_imported 100]\<rparr>)"
    by (simp add: import_row_def parse_row1 import_values_john [OF example_email])
  have r: "build_rowData [''first_name'', ''last_name'', ''email'']
             (parseCsvLine ''John,Doe,john@x.com'') Map.empty
           = [''first_name'' \<mapsto> ''John'', ''last_name'' \<mapsto> ''Doe'', ''email'' \<mapsto> ''john@x.com'']"
    by (simp add: parse_row1)
  from import_defaults [OF i refl] show ?thesis
    unfolding r using i by (auto simp: example_db_def example_lead_def)
qed

section \<open>The import: row numbers\<close>

text \<open>
  Claim C7 at a file with an empty second line: the header is on line 1 and the row
  \<^verbatim>\<open>,Smith,jane@x.com\<close> on line 3 of the file (index 2 of the split text). The row fails
  validation, and the number recorded for it is 2: empty lines are filtered out before the
  rows are numbered.
\<close>

theorem blank_line_shifts_row_number:
  "split newline blank_line_csv ! 2 = '',Smith,jane@x.com'' \<and>
   (\<exists>issues. handleFileImport rt clock user_id blank_line_csv db =
      (Import_Result \<lparr>success = 0, errors = [(2, ZodError issues)], total = 1\<rparr>, db))"
proof -
  obtain issues where
    "import_row rt (clock 0) user_id [''first_name'', ''last_name'', ''email''] '',Smith,jane@x.com'' db
       = Inl (ZodError (Required ''first_name'' # issues))"
    using row2_fails by blast
  then have "handleFileImport rt clock user_id blank_line_csv db =
      (Import_Result \<lparr>success = 0, errors = [(2, ZodError (Required ''first_name'' # issues))],
         total = 1\<rparr>, db)"
    by (simp add: handleFileImport_def blank_line_csv_lines standard_headers requiredFields_def
          trim_def is_space_def)
  moreover have "split newline blank_line_csv ! 2 = '',Smith,jane@x.com''"
    by (simp add: blank_line_csv_def newline_def)
  ultimately show ?thesis by blast
qed

lemma spec_example_import:
  assumes "zod_email rt ''john@x.com''"
  shows "\<exists>issues. handleFileImport rt clock 2 example_csv example_db =
      (Import_Result \<lparr>success = 1, errors = [(3, ZodError issues)], total = 2\<rparr>,
       example_db\<lparr>buyer_leads := [example_lead, example_imported (clock 0)]\<rparr>)"
proof -
  obtain issues where
    "import_row rt (clock 1) 2 [''first_name'', ''last_name'', ''email''] '',Smith,jane@x.com''
       (example_db\<lparr>buyer_leads := [example_lead, example_imported (clock 0)]\<rparr>)
       = Inl (ZodError (Required ''first_name'' # issues))"
    using row2_fails by blast
  then have "handleFileImport rt clock 2 example_csv example_db =
      (Import_Result \<lparr>success = 1, errors = [(3, ZodError (Required ''first_name'' # issues))],
         total = 2\<rparr>, example_db\<lparr>buyer_leads := [example_lead, example_imported (clock 0)]\<rparr>)"
    by (simp add: handleFileImport_def example_csv_lines standard_headers requiredFields_def
          trim_def is_space_def import_row_def parse_row1 import_values_john [OF assms])
  then show ?thesis by blast
qed

lemma bad_first_csv_lines:
  "csv_lines bad_first_csv = [''first_name,last_name,email'', '',Smith,jane@x.com'', ''John,Doe,john@x.com'']"
  by (simp add: csv_lines_def bad_first_csv_def string_eval)

theorem import_attempts_every_row_witness:
  "2 \<le> length (csv_lines bad_first_csv) \<and>
   set requiredFields \<subseteq> set (csv_headers (csv_lines bad_first_csv)) \<and>
   (\<exists>issues. handleFileImport example_runtime (\<lambda>i. 100 + i) 2 bad_first_csv example_db =
      (Import_Result \<lparr>success = 1, errors = [(2, ZodError issues)], total = 2\<rparr>,
       example_db\<lparr>buyer_leads := [example_lead, example_imported 101]\<rparr>))"
proof -
  let ?headers = "[''first_name'', ''last_name'', ''email'']"
  have l: "2 \<le> length (csv_lines bad_first_csv)"
    by (simp add: bad_first_csv_lines)
  have h: "set requiredFields \<subseteq> set (csv_headers (csv_lines bad_first_csv))"
    by (simp add: bad_first_csv_lines standard_headers requiredFields_def)
  from import_attempts_every_row [OF l h, of example_runtime "\<lambda>i. 100 + i" 2 example_db]
  obtain r db' outcomes where
    res: "handleFileImport example_runtime (\<lambda>i. 100 + i) 2 bad_first_csv example_db = (Import_Result r, db')"
    and t: "total r = 2"
    and n: "length outcomes = 2"
    and p: "\<forall>k < 2. outcomes ! k = import_row example_runtime (100 + k) 2 ?headers
                               (csv_lines bad_first_csv ! (k + 1)) (db_after example_db (take k outcomes))"
    and e: "errors r = recorded_errors 0 outcomes"
    and s: "success r = length (filter (\<lambda>outcome. \<not> isl outcome) outcomes)"
    and d: "db' = db_after example_db outcomes"
    by (auto simp: bad_first_csv_lines standard_headers)
  from n obtain o1 o2 where os: "outcomes = [o1, o2]"
    by (auto simp: length_Suc_conv numeral_2_eq_2)
  obtain issues where
    f: "import_row example_runtime 100 2 ?headers '',Smith,jane@x.com'' example_db
       = Inl (ZodError (Required ''first_name'' # issues))"
    using row2_fails by blast
  from p [rule_format, of 0] f have o1: "o1 = Inl (ZodError (Required ''first_name'' # issues))"
    by (simp add: os bad_first_csv_lines)
  from p [rule_format, of 1] have o2: "o2 = Inr (example_db\<lparr>buyer_leads := [example_lead, example_imported 101]\<rparr>)"
    by (simp add: os o1 bad_first_csv_lines import_row_def parse_row1 import_values_john [OF example_email])
  have "r = \<lparr>success = 1, errors = [(2, ZodError (Required ''first_name'' # issues))], total = 2\<rparr>"
    using t e s by (simp add: os o1 o2)
  with res d have "handleFileImport example_runtime (\<lambda>i. 100 + i) 2 bad_first_csv example_db =
      (Import_Result \<lparr>success = 1, errors = [(2, ZodError (Required ''first_name'' # issues))], total = 2\<rparr>,
       example_db\<lparr>buyer_leads := [example_lead, example_imported 101]\<rparr>)"
    by (simp add: os o1 o2)
  with l h show ?thesis by blast
qed

theorem import_rejected_as_a_whole_witness:
  "length (csv_lines header_only_csv) < 2 \<and>
   (\<exists>message. handleFileImport example_runtime (\<lambda>i. 100 + i) 2 header_only_csv example_db
                 = (Import_Error message, example_db)) \<and>
   \<not> set requiredFields \<subseteq> set (csv_headers (csv_lines no_email_csv)) \<and>
   (\<exists>message. handleFileImport example_runtime (\<lambda>i. 100 + i) 2 no_email_csv example_db
                 = (Import_Error message, example_db))"
proof -
  have 1: "length (csv_lines header_only_csv) < 2"
    by (simp add: csv_lines_def header_only_csv_def string_eval)
  have 2: "\<not> set requiredFields \<subseteq> set (csv_headers (csv_lines no_email_csv))"
    by (simp add: csv_lines_def no_email_csv_def csv_headers_def parseCsvLine_def requiredFields_def
          string_eval)
  from 1 2
    import_rejected_as_a_whole [of header_only_csv example_runtime "\<lambda>i. 100 + i" 2 example_db]
    import_rejected_as_a_whole [of no_email_csv example_runtime "\<lambda>i. 100 + i" 2 example_db]
  show ?thesis by blast
qed

section \<open>The export of no lead\<close>

text \<open>
  Claim C9, as the export has it. When the query returns no lead for the caller, the export
  downloads nothing, not even the header line, and shows the toast \<^verbatim>\<open>No Data\<close> in the
  destructive variant; it is not the \<^verbatim>\<open>Export Error\<close> of the \<^verbatim>\<open>catch\<close>.
\<close>

theorem export_of_nothing:
  assumes "select_buyer_leads uid db = []"
  shows "handleExport rt (Inr (select_buyer_leads uid db)) =
           \<lparr>download = None, toast_title = ''No Data'', toast_variant = Destructive\<rparr>"
  using assms by (simp add: handleExport_def)

lemma no_profile_sees_nothing: "select_buyer_leads (Some 9) example_db = []"
  by (simp add: select_buyer_leads_def lead_select_allowed_iff example_db_def
        example_profiles_def get_user_role_def is_true_sql_eq)

theorem export_of_nothing_witness:
  "select_buyer_leads (Some 9) example_db = [] \<and>
   handleExport example_runtime (Inr (select_buyer_leads (Some 9) example_db)) =
     \<lparr>download = None, toast_title = ''No Data'', toast_variant = Destructive\<rparr>"
  using export_of_nothing [OF no_profile_sees_nothing, of example_runtime] no_profile_sees_nothing
  by simp

theorem empty_export_counterexample:
  "select_buyer_leads (Some 9) example_db = [] \<and>
   download (handleExport example_runtime (Inr (select_buyer_leads (Some 9) example_db))) = None \<and>
   download (handleExport example_runtime (Inr (select_buyer_leads (Some 9) example_db)))
     \<noteq> Some (csvContent example_runtime []) \<and>
   toast_variant (handleExport example_runtime (Inr (select_buyer_leads (Some 9) example_db)))
     = Destructive"
  by (simp add: no_profile_sees_nothing handleExport_def)

section \<open>The import: empty cells\<close>

lemma build_rowData_no_values: "build_rowData headers [] rowData = rowData"
  by (induction headers) simp_all

lemma build_rowData_empty_cell:
  assumes "j < length headers" and "j < length values \<longrightarrow> values ! j = []"
  shows "build_rowData headers values rowData =
         build_rowData (drop_column j headers) (drop_column j values) rowData"
  using assms
proof (induction headers "values" rowData arbitrary: j rule: build_rowData.induct)
  case (1 "values" rowData)
  then show ?case by simp
next
  case (2 header headers rowData)
  then show ?case by (simp add: drop_column_def build_rowData_no_values)
next
  case (3 header headers v "values" rowData)
  show ?case
  proof (cases j)
    case 0
    with "3.prems" show ?thesis by (simp add: drop_column_def)
  next
    case (Suc k)
    with "3.prems" have "k < length headers" "k < length values \<longrightarrow> values ! k = []"
      by simp_all
    from "3.IH" [OF this] Suc show ?thesis
      by (simp add: drop_column_def)
  qed
qed

lemma build_rowData_padded:
  "build_rowData headers (values @ replicate n []) rowData = build_rowData headers values rowData"
proof (induction headers "values" rowData rule: build_rowData.induct)
  case (1 "values" rowData)
  then show ?case by simp
next
  case (2 header headers rowData)
  have "\<And>m. build_rowData headers (replicate m []) rowData = rowData" for headers :: "string list"
  proof (induction headers)
    case Nil
    then show ?case by simp
  next
    case (Cons h hs)
    show ?case by (cases m) (simp_all add: Cons build_rowData_no_values)
  qed
  then show ?case by (simp add: build_rowData_no_values)
next
  case (3 header headers v "values" rowData)
  then show ?case by simp
qed

lemma build_rowData_None_iff:
  "build_rowData headers values rowData k = None \<longleftrightarrow>
     rowData k = None \<and> (\<forall>(h, v) \<in> set (zip headers values). h = k \<longrightarrow> v = [])"
  by (induction headers "values" rowData rule: build_rowData.induct) auto

lemma required_missing:
  assumes "field \<in> set requiredFields" and "rowData field = None"
  shows "\<exists>issues. csvImportSchema_parse is_email rowData = Inl issues \<and> Required field \<in> set issues"
  using assms
  by (auto simp: requiredFields_def csvImportSchema_parse_def Let_def string_min1_def
        string_email_def)

text \<open>
  Claim C10, as the import has it. A header whose cell is empty or missing gets no entry,
  so the row is imported as if that column (header and cell) were not in the file; when
  every column named as a required field has an empty or missing cell, the row fails
  validation with the issue \<^verbatim>\<open>Required\<close> for that field; and a row with fewer cells than
  headers is imported as the row padded with empty cells.
\<close>

theorem empty_cell_is_absent_column:
  "(j < length headers \<and> (j < length values \<longrightarrow> values ! j = []) \<longrightarrow>
      import_values rt now user_id headers values db =
      import_values rt now user_id (drop_column j headers) (drop_column j values) db) \<and>
   (field \<in> set requiredFields \<and> (\<forall>(h, v) \<in> set (zip headers values). h = field \<longrightarrow> v = []) \<longrightarrow>
      (\<exists>issues. import_values rt now user_id headers values db = Inl (ZodError issues) \<and>
                 Required field \<in> set issues)) \<and>
   import_values rt now user_id headers (values @ replicate n []) db =
     import_values rt now user_id headers values db"
proof (intro conjI impI)
  assume "j < length headers \<and> (j < length values \<longrightarrow> values ! j = [])"
  then have "build_rowData headers values Map.empty =
             build_rowData (drop_column j headers) (drop_column j values) Map.empty"
    using build_rowData_empty_cell by blast
  then show "import_values rt now user_id headers values db =
      import_values rt now user_id (drop_column j headers) (drop_column j values) db"
    by (simp add: import_values_def)
next
  assume a: "field \<in> set requiredFields \<and>
             (\<forall>(h, v) \<in> set (zip headers values). h = field \<longrightarrow> v = [])"
  then have "build_rowData headers values Map.empty field = None"
    by (simp add: build_rowData_None_iff)
  with a required_missing [of field "build_rowData headers values Map.empty" "zod_email rt"]
  show "\<exists>issues. import_values rt now user_id headers values db = Inl (ZodError issues) \<and>
                  Required field \<in> set issues"
    by (auto simp: import_values_def)
next
  show "import_values rt now user_id headers (values @ replicate n []) db =
        import_values rt now user_id headers values db"
    by (simp add: import_values_def build_rowData_padded)
qed

theorem duplicate_header_counterexample:
  "parseCsvLine '',John,Doe,john@x.com'' = [[], ''John'', ''Doe'', ''john@x.com''] \<and>
   import_row example_runtime 100 2 [''first_name'', ''first_name'', ''last_name'', ''email'']
     '',John,Doe,john@x.com'' example_db
   = Inr (example_db\<lparr>buyer_leads := [example_lead, example_imported 100]\<rparr>)"
proof -
  have p: "parseCsvLine '',John,Doe,john@x.com'' = [[], ''John'', ''Doe'', ''john@x.com'']"
    by (simp add: parseCsvLine_def string_eval)
  have "import_values example_runtime 100 2 [''first_name'', ''first_name'', ''last_name'', ''email'']
          [[], ''John'', ''Doe'', ''john@x.com''] example_db
        = import_values example_runtime 100 2 [''first_name'', ''last_name'', ''email'']
          [''John'', ''Doe'', ''john@x.com''] example_db"
    by (simp add: import_values_def)
  with p show ?thesis
    by (simp add: import_row_def import_values_john [OF example_email])
qed

theorem empty_cell_is_absent_column_witness:
  "import_values example_runtime 100 2 [''first_name'', ''last_name'', ''phone'', ''email'']
     [''John'', ''Doe'', [], ''john@x.com''] example_db
   = Inr (example_db\<lparr>buyer_leads := [example_lead, example_imported 100]\<rparr>) \<and>
   (\<exists>issues. import_values example_runtime 100 2 [''first_name'', ''last_name'', ''email'']
      [[], ''Smith'', ''jane@x.com''] example_db = Inl (ZodError issues) \<and>
      Required ''first_name'' \<in> set issues) \<and>
   import_values example_runtime 100 2 [''first_name'', ''last_name'', ''email'', ''phone'', ''notes'']
     [''John'', ''Doe'', ''john@x.com''] example_db
   = Inr (example_db\<lparr>buyer_leads := [example_lead, example_imported 100]\<rparr>)"
proof -
  have 1: "import_values example_runtime 100 2 [''first_name'', ''last_name'', ''phone'', ''email'']
     [''John'', ''Doe'', [], ''john@x.com''] example_db
   = import_values example_runtime 100 2 [''first_name'', ''last_name'', ''email'']
     [''John'', ''Doe'', ''john@x.com''] example_db"
    using empty_cell_is_absent_column [of 2 "[''first_name'', ''last_name'', ''phone'', ''email'']"
        "[''John'', ''Doe'', [], ''john@x.com'']" example_runtime 100 2 example_db
        "''first_name''" 0]
    by (simp add: drop_column_def)
  have 2: "\<exists>issues. import_values example_runtime 100 2 [''first_name'', ''last_name'', ''email'']
      [[], ''Smith'', ''jane@x.com''] example_db = Inl (ZodError issues) \<and>
      Required ''first_name'' \<in> set issues"
    using empty_cell_is_absent_column [of 5 "[''first_name'', ''last_name'', ''email'']"
        "[[], ''Smith'', ''jane@x.com'']" example_runtime 100 2 example_db "''first_name''" 0]
    by (simp add: requiredFields_def)
  have "import_values example_runtime 100 2
          [''first_name'', ''last_name'', ''email'', ''phone'', ''notes'']
          [''John'', ''Doe'', ''john@x.com''] example_db
        = import_values example_runtime 100 2
          [''first_name'', ''last_name'', ''email'', ''phone'', ''notes'']
          ([''John'', ''Doe'', ''john@x.com''] @ replicate 2 []) example_db"
    using empty_cell_is_absent_column [of 9 "[''first_name'', ''last_name'', ''email'', ''phone'', ''notes'']"
        "[''John'', ''Doe'', ''john@x.com'']" example_runtime 100 2 example_db "''first_name''" 2]
    by simp
  also have "\<dots> = import_values example_runtime 100 2 [''first_name'', ''last_name'', ''email'']
          [''John'', ''Doe'', ''john@x.com''] example_db"
    by (simp add: import_values_def numeral_2_eq_2)
  finally show ?thesis
    using 1 2 by (simp add: import_values_john [OF example_email])
qed

section \<open>Export followed by import\<close>

lemma split_no_separator: "c \<notin> set l \<Longrightarrow> split c l = [l]"
  by (induction l) auto

lemma split_append: "c \<notin> set l \<Longrightarrow> split c (l @ c # rest) = l # split c rest"
  by (induction l) auto

lemma split_join:
  assumes "ls \<noteq> []" and "\<forall>l \<in> set ls. c \<notin> set l"
  shows "split c (join [c] ls) = ls"
  using assms
proof (induction "[c]" ls rule: join.induct)
  case 1
  then show ?case by simp
next
  case (2 x)
  then show ?case by (simp add: split_no_separator)
next
  case (3 x y ys)
  then show ?case by (simp add: split_append)
qed

lemma scan_unquoted:
  assumes "dquote \<notin> set s" and "CHR '','' \<notin> set s \<or> inQuotes"
  shows "parseCsvLine_loop (s @ rest) result current inQuotes =
         parseCsvLine_loop rest result (current @ s) inQuotes"
  using assms by (induction s arbitrary: current) auto

lemma scan_cell:
  assumes "encodes cell s"
  shows "parseCsvLine_loop (cell @ rest) result current False =
         parseCsvLine_loop rest result (current @ s) False"
proof -
  from assms have d: "dquote \<notin> set s" by (simp add: encodes_def)
  from assms consider "cell = s" "CHR '','' \<notin> set s" | "cell = [dquote] @ s @ [dquote]"
    by (auto simp: encodes_def)
  then show ?thesis
  proof cases
    case 1
    with d show ?thesis by (simp add: scan_unquoted)
  next
    case 2
    have "parseCsvLine_loop (cell @ rest) result current False =
          parseCsvLine_loop (s @ dquote # rest) result current True"
      using 2 by simp
    also have "\<dots> = parseCsvLine_loop (dquote # rest) result (current @ s) True"
      using d by (simp add: scan_unquoted)
    also have "\<dots> = parseCsvLine_loop rest result (current @ s) False"
      by simp
    finally show ?thesis .
  qed
qed

lemma parse_cells:
  assumes "list_all2 encodes cells ss" and "cells \<noteq> []"
  shows "parseCsvLine_loop (join '','' cells) result [] False = result @ map trim ss"
  using assms
proof (induction "'',''" cells arbitrary: ss result rule: join.induct)
  case 1
  then show ?case by simp
next
  case (2 x)
  then obtain s where "ss = [s]" "encodes x s"
    by (auto simp: list_all2_Cons1)
  with scan_cell [of x s "[]" result "[]"] show ?case by simp
next
  case (3 x y ys)
  from "3.prems" obtain s ss' where s: "ss = s # ss'" "encodes x s" "list_all2 encodes (y # ys) ss'"
    by (auto simp: list_all2_Cons1)
  have "parseCsvLine_loop (join '','' (x # y # ys)) result [] False =
        parseCsvLine_loop (CHR '','' # join '','' (y # ys)) result s False"
    using scan_cell [OF s(2), of "CHR '','' # join '','' (y # ys)" result "[]"] by simp
  also have "\<dots> = parseCsvLine_loop (join '','' (y # ys)) (result @ [trim s]) [] False"
    by (simp add: dquote_def)
  also have "\<dots> = (result @ [trim s]) @ map trim ss'"
    using "3.hyps" [OF s(3)] by simp
  finally show ?case using s(1) by simp
qed

lemma parseCsvLine_join:
  assumes "list_all2 encodes cells ss" and "cells \<noteq> []"
  shows "parseCsvLine (join '','' cells) = map trim ss"
  using parse_cells [OF assms, of "[]"] by (simp add: parseCsvLine_def)

lemma trimmed_trim: "trimmed s \<Longrightarrow> trim s = s"
proof (cases s)
  case Nil
  then show ?thesis by (simp add: trim_def)
next
  case (Cons c cs)
  assume "trimmed s"
  with Cons have h: "\<not> is_space (hd s)" and l: "\<not> is_space (last s)"
    by (simp_all add: trimmed_def)
  from Cons h have 1: "dropWhile is_space s = s" by simp
  have d: "\<And>xs. xs \<noteq> [] \<Longrightarrow> \<not> is_space (hd xs) \<Longrightarrow> dropWhile is_space xs = xs"
    by (case_tac xs) simp_all
  from Cons have "s \<noteq> []" by simp
  with l have "dropWhile is_space (rev s) = rev s"
    by (intro d) (simp_all only: rev_is_Nil_conv hd_rev not_False_eq_True)
  with 1 show ?thesis by (simp add: trim_def)
qed

lemma encodes_js_string:
  assumes "case v of None \<Rightarrow> True | Some s \<Rightarrow> dquote \<notin> set s"
  shows "encodes (to_text rt (cell_value h (js_string v))) (opt_text v)"
  using assms
  by (cases v) (auto simp: encodes_def to_text_def cell_value_def js_string_def opt_text_def)

lemma encodes_js_number:
  assumes "case v of None \<Rightarrow> True | Some x \<Rightarrow> plain_cell (number_text rt x)"
  shows "encodes (to_text rt (cell_value h (js_number v))) (opt_number rt v)"
  using assms
  by (cases v) (auto simp: encodes_def to_text_def cell_value_def js_number_def opt_number_def
        plain_cell_def clean_cell_def clean_text_def)

lemma join_avoids:
  assumes "\<forall>a \<in> set areas. c \<notin> set a" and "c \<notin> set sep"
  shows "c \<notin> set (join sep areas)"
  using assms by (induction sep areas rule: join.induct) auto

lemma encodes_areas:
  assumes "list_all clean_area areas"
  shows "encodes (to_text rt (cell_value ''preferred_areas'' (JArray areas))) (join '';'' areas)"
proof -
  from assms have "\<forall>a \<in> set areas. dquote \<notin> set a" "\<forall>a \<in> set areas. CHR '','' \<notin> set a"
    by (simp_all add: list_all_iff clean_area_def clean_text_def)
  then have "dquote \<notin> set (join '';'' areas)" "CHR '','' \<notin> set (join '';'' areas)"
    by (simp_all add: join_avoids dquote_def)
  then show ?thesis
    by (simp add: encodes_def to_text_def cell_value_def)
qed

lemma round_trip_leadE:
  assumes "round_trip_lead rt bl"
  obtains fn ln em areas st src p where
    "first_name bl = Some fn" "clean_cell fn"
    "last_name bl = Some ln" "clean_cell ln"
    "email bl = Some em" "clean_cell em" "zod_email rt em"
    "preferred_areas bl = Some areas" "areas \<noteq> [[]]" "list_all clean_area areas"
    "status bl = Some st" "source bl = Some src"
    "priority bl = Some p" "round_trip_integer rt p" "1 \<le> p" "p \<le> 5"
  using assms by (auto simp: round_trip_lead_def split: option.splits)

lemma round_trip_lead_optional:
  assumes "round_trip_lead rt bl"
  shows "\<And>s. phone bl = Some s \<Longrightarrow> clean_cell s"
    and "\<And>s. property_type bl = Some s \<Longrightarrow> clean_cell s"
    and "\<And>s. bl_notes bl = Some s \<Longrightarrow> clean_cell s"
    and "\<And>x. budget_min bl = Some x \<Longrightarrow> round_trip_number rt x \<and> numeric_in 12 2 x = Some x"
    and "\<And>x. budget_max bl = Some x \<Longrightarrow> round_trip_number rt x \<and> numeric_in 12 2 x = Some x"
    and "\<And>x. bathrooms bl = Some x \<Longrightarrow> round_trip_number rt x \<and> numeric_in 3 1 x = Some x"
    and "\<And>n. bedrooms bl = Some n \<Longrightarrow> round_trip_integer rt n \<and> int4_in n = Some n"
    and "\<And>t. created_at bl = Some t \<Longrightarrow>
           dquote \<notin> set (timestamp_text rt t) \<and> newline \<notin> set (timestamp_text rt t)"
  using assms by (auto simp: round_trip_lead_def split: option.splits)

lemma clean_cell_dquote: "clean_cell s \<Longrightarrow> dquote \<notin> set s"
  by (simp add: clean_cell_def clean_text_def)

lemma label_dquote:
  "dquote \<notin> set (lead_status_text st)" "dquote \<notin> set (lead_source_text src)"
  by (cases st; simp add: dquote_def) (cases src; simp add: dquote_def)

lemma export_cells:
  assumes "round_trip_lead rt bl"
  shows "list_all2 encodes
           (map (\<lambda>header. to_text rt (cell_value header (lead_property rt bl header))) export_headers)
           [opt_text (first_name bl), opt_text (last_name bl), opt_text (email bl),
            opt_text (phone bl), opt_number rt (budget_min bl), opt_number rt (budget_max bl),
            join '';'' (the (preferred_areas bl)), opt_text (property_type bl),
            opt_number rt (map_option of_int (bedrooms bl)), opt_number rt (bathrooms bl),
            opt_text (map_option lead_status_text (status bl)),
            opt_text (map_option lead_source_text (source bl)),
            opt_number rt (map_option of_int (priority bl)), opt_text (bl_notes bl),
            opt_text (map_option (timestamp_text rt) (created_at bl))]"
proof -
  from assms obtain fn ln em areas st src p where f:
    "first_name bl = Some fn" "clean_cell fn"
    "last_name bl = Some ln" "clean_cell ln"
    "email bl = Some em" "clean_cell em" "zod_email rt em"
    "preferred_areas bl = Some areas" "areas \<noteq> [[]]" "list_all clean_area areas"
    "status bl = Some st" "source bl = Some src"
    "priority bl = Some p" "round_trip_integer rt p" "1 \<le> p" "p \<le> 5"
    by (rule round_trip_leadE)
  note o = round_trip_lead_optional [OF assms]
  have s: "\<And>h v. (\<And>s. v = Some s \<Longrightarrow> clean_cell s) \<Longrightarrow>
             encodes (to_text rt (cell_value h (js_string v))) (opt_text v)"
    by (rule encodes_js_string) (auto simp: clean_cell_dquote split: option.splits)
  have n: "\<And>h v. (\<And>x. v = Some x \<Longrightarrow> round_trip_number rt x) \<Longrightarrow>
             encodes (to_text rt (cell_value h (js_number v))) (opt_number rt v)"
    by (rule encodes_js_number) (auto simp: round_trip_number_def split: option.splits)
  have i: "\<And>h v. (\<And>x. v = Some x \<Longrightarrow> round_trip_integer rt x) \<Longrightarrow>
             encodes (to_text rt (cell_value h (js_number (map_option of_int v))))
               (opt_number rt (map_option of_int v))"
    by (rule encodes_js_number) (auto simp: round_trip_integer_def split: option.splits)
  have c1: "encodes (to_text rt (cell_value ''first_name'' (js_string (first_name bl)))) (opt_text (first_name bl))"
    using f by (intro s) simp
  have c2: "encodes (to_text rt (cell_value ''last_name'' (js_string (last_name bl)))) (opt_text (last_name bl))"
    using f by (intro s) simp
  have c3: "encodes (to_text rt (cell_value ''email'' (js_string (email bl)))) (opt_text (email bl))"
    using f by (intro s) simp
  have c4: "encodes (to_text rt (cell_value ''phone'' (js_string (phone bl)))) (opt_text (phone bl))"
    using o(1) by (intro s) simp
  have c5: "encodes (to_text rt (cell_value ''budget_min'' (js_number (budget_min bl)))) (opt_number rt (budget_min bl))"
    using o(4) by (intro n) simp
  have c6: "encodes (to_text rt (cell_value ''budget_max'' (js_number (budget_max bl)))) (opt_number rt (budget_max bl))"
    using o(5) by (intro n) simp
  have c7: "encodes (to_text rt (cell_value ''preferred_areas'' (JArray areas))) (join '';'' areas)"
    using f(10) by (rule encodes_areas)
  have c8: "encodes (to_text rt (cell_value ''property_type'' (js_string (property_type bl)))) (opt_text (property_type bl))"
    using o(2) by (intro s) simp
  have c9: "encodes (to_text rt (cell_value ''bedrooms'' (js_number (map_option of_int (bedrooms bl)))))
              (opt_number rt (map_option of_int (bedrooms bl)))"
    using o(7) by (intro i) simp
  have c10: "encodes (to_text rt (cell_value ''bathrooms'' (js_number (bathrooms bl)))) (opt_number rt (bathrooms bl))"
    using o(6) by (intro n) simp
  have c11: "encodes (to_text rt (cell_value ''status'' (js_string (map_option lead_status_text (status bl)))))
              (opt_text (map_option lead_status_text (status bl)))"
    by (rule encodes_js_string) (simp add: label_dquote split: option.splits)
  have c12: "encodes (to_text rt (cell_value ''source'' (js_string (map_option lead_source_text (source bl)))))
              (opt_text (map_option lead_source_text (source bl)))"
    by (rule encodes_js_string) (simp add: label_dquote split: option.splits)
  have c13: "encodes (to_text rt (cell_value ''priority'' (js_number (map_option of_int (priority bl)))))
              (opt_number rt (map_option of_int (priority bl)))"
    using f by (intro i) simp
  have c14: "encodes (to_text rt (cell_value ''notes'' (js_string (bl_notes bl)))) (opt_text (bl_notes bl))"
    using o(3) by (intro s) simp
  have c15: "encodes (to_text rt (cell_value ''created_at'' (js_string (map_option (timestamp_text rt) (created_at bl)))))
              (opt_text (map_option (timestamp_text rt) (created_at bl)))"
    using o(8) by (intro encodes_js_string) (auto split: option.splits)
  show ?thesis
    unfolding export_headers_def
    using c1 c2 c3 c4 c5 c6 c7 c8 c9 c10 c11 c12 c13 c14 c15 f(8)
    by (simp add: lead_property_def)
qed

lemma trimmed_join:
  assumes "\<forall>a \<in> set areas. trimmed a"
  shows "trimmed (join '';'' areas)"
  using assms
proof (induction "'';''" areas rule: join.induct)
  case 1
  then show ?case by (simp add: trimmed_def)
next
  case (2 x)
  then show ?case by simp
next
  case (3 x y ys)
  then have x: "trimmed x" and r: "trimmed (join '';'' (y # ys))"
    by simp_all
  have s: "\<not> is_space CHR '';''"
    by (simp add: is_space_def)
  have "\<not> is_space (hd (x @ '';'' @ join '';'' (y # ys)))"
    using x s by (cases x) (simp_all add: trimmed_def)
  moreover have "\<not> is_space (last (x @ '';'' @ join '';'' (y # ys)))"
    using r s by (cases "join '';'' (y # ys) = []") (simp_all add: trimmed_def)
  ultimately show ?case by (simp add: trimmed_def)
qed

lemma join_eq_Nil:
  assumes "join '';'' areas = []"
  shows "areas = [] \<or> areas = [[]]"
  using assms by (induction "'';''" areas rule: join.induct) simp_all

lemma clean_cell_trimmed: "clean_cell s \<Longrightarrow> trimmed s"
  by (simp add: clean_cell_def clean_text_def)

lemma label_trimmed: "trimmed (lead_status_text st)" "trimmed (lead_source_text src)"
  by (cases st; simp add: trimmed_def is_space_def) (cases src; simp add: trimmed_def is_space_def)

lemma trimmed_opt_text: "(\<And>s. v = Some s \<Longrightarrow> trimmed s) \<Longrightarrow> trim (opt_text v) = opt_text v"
  by (cases v) (simp_all add: opt_text_def trim_Nil trimmed_trim)

lemma trimmed_opt_number:
  "(\<And>x. v = Some x \<Longrightarrow> plain_cell (number_text rt x)) \<Longrightarrow> trim (opt_number rt v) = opt_number rt v"
  by (cases v) (simp_all add: opt_number_def trim_Nil trimmed_trim plain_cell_def clean_cell_trimmed)

lemma parse_export_line:
  assumes "round_trip_lead rt bl"
  shows "parseCsvLine (export_line rt bl) = row_values rt bl"
proof -
  from assms obtain fn ln em areas st src p where f:
    "first_name bl = Some fn" "clean_cell fn"
    "last_name bl = Some ln" "clean_cell ln"
    "email bl = Some em" "clean_cell em" "zod_email rt em"
    "preferred_areas bl = Some areas" "areas \<noteq> [[]]" "list_all clean_area areas"
    "status bl = Some st" "source bl = Some src"
    "priority bl = Some p" "round_trip_integer rt p" "1 \<le> p" "p \<le> 5"
    by (rule round_trip_leadE)
  note o = round_trip_lead_optional [OF assms]
  have t: "trim (opt_text (first_name bl)) = opt_text (first_name bl)"
    "trim (opt_text (last_name bl)) = opt_text (last_name bl)"
    "trim (opt_text (email bl)) = opt_text (email bl)"
    "trim (opt_text (phone bl)) = opt_text (phone bl)"
    "trim (opt_text (property_type bl)) = opt_text (property_type bl)"
    "trim (opt_text (bl_notes bl)) = opt_text (bl_notes bl)"
    using f o(1,2,3) by (auto intro!: trimmed_opt_text simp: clean_cell_trimmed)
  have n: "trim (opt_number rt (budget_min bl)) = opt_number rt (budget_min bl)"
    "trim (opt_number rt (budget_max bl)) = opt_number rt (budget_max bl)"
    "trim (opt_number rt (bathrooms bl)) = opt_number rt (bathrooms bl)"
    using o(4,5,6) by (auto intro!: trimmed_opt_number simp: round_trip_number_def)
  have i: "trim (opt_number rt (map_option of_int (bedrooms bl))) = opt_number rt (map_option of_int (bedrooms bl))"
    "trim (opt_number rt (map_option of_int (priority bl))) = opt_number rt (map_option of_int (priority bl))"
    using o(7) f(13,14)
    by (auto intro!: trimmed_opt_number simp: round_trip_integer_def)
  have l: "trim (opt_text (map_option lead_status_text (status bl))) = opt_text (map_option lead_status_text (status bl))"
    "trim (opt_text (map_option lead_source_text (source bl))) = opt_text (map_option lead_source_text (source bl))"
    by (auto intro!: trimmed_opt_text simp: label_trimmed)
  from f(10) have "\<forall>a \<in> set areas. trimmed a"
    by (simp add: list_all_iff clean_area_def clean_text_def)
  then have a: "trim (join '';'' (the (preferred_areas bl))) = join '';'' (the (preferred_areas bl))"
    using f(8) by (simp add: trimmed_join trimmed_trim)
  have "parseCsvLine (export_line rt bl) =
        map trim [opt_text (first_name bl), opt_text (last_name bl), opt_text (email bl),
            opt_text (phone bl), opt_number rt (budget_min bl), opt_number rt (budget_max bl),
            join '';'' (the (preferred_areas bl)), opt_text (property_type bl),
            opt_number rt (map_option of_int (bedrooms bl)), opt_number rt (bathrooms bl),
            opt_text (map_option lead_status_text (status bl)),
            opt_text (map_option lead_source_text (source bl)),
            opt_number rt (map_option of_int (priority bl)), opt_text (bl_notes bl),
            opt_text (map_option (timestamp_text rt) (created_at bl))]"
    unfolding export_line_def
    by (rule parseCsvLine_join [OF export_cells [OF assms]]) (simp add: export_headers_def)
  then show ?thesis
    by (simp add: row_values_def t n i l a)
qed

lemma build_rowData_other:
  "k \<notin> set headers \<Longrightarrow> build_rowData headers values rowData k = rowData k"
  by (induction headers "values" rowData rule: build_rowData.induct) auto

lemma build_rowData_lookup:
  assumes "distinct headers" and "length values = length headers" and "i < length headers"
  shows "build_rowData headers values rowData (headers ! i) =
           (if values ! i \<noteq> [] then Some (values ! i) else rowData (headers ! i))"
  using assms
proof (induction headers "values" rowData arbitrary: i rule: build_rowData.induct)
  case (1 "values" rowData)
  then show ?case by simp
next
  case (2 header headers rowData)
  then show ?case by simp
next
  case (3 header headers v "values" rowData)
  show ?case
  proof (cases i)
    case 0
    with "3.prems" show ?thesis by (simp add: build_rowData_other)
  next
    case (Suc j)
    with "3.prems" have "distinct headers" "length values = length headers" "j < length headers"
      "headers ! j \<noteq> header"
      by auto
    with "3.IH" [of j] Suc show ?thesis by simp
  qed
qed

lemma or_null_clean: "(\<And>s. v = Some s \<Longrightarrow> clean_cell s) \<Longrightarrow> or_null v = v"
  by (cases v) (auto simp: or_null_def truthy_def clean_cell_def)

lemma float_field:
  assumes "\<And>x. v = Some x \<Longrightarrow> round_trip_number rt x"
  shows "(if truthy (map_option (number_text rt) v)
          then parseFloat rt (the (map_option (number_text rt) v)) else None) = v"
  using assms
  by (cases v) (auto simp: truthy_def round_trip_number_def plain_cell_def clean_cell_def)

lemma int_field:
  assumes "\<And>n. v = Some n \<Longrightarrow> round_trip_integer rt n"
  shows "(if truthy (map_option (\<lambda>n. number_text rt (of_int n)) v)
          then parseInt (the (map_option (\<lambda>n. number_text rt (of_int n)) v)) else d) =
         (case v of None \<Rightarrow> d | Some n \<Rightarrow> Some n)"
  using assms
  by (cases v) (auto simp: truthy_def round_trip_integer_def plain_cell_def clean_cell_def)

lemma areas_field:
  assumes "areas \<noteq> [[]]" and "list_all clean_area areas"
  shows "(if truthy (if join '';'' areas \<noteq> [] then Some (join '';'' areas) else None)
          then map trim (split CHR '';'' (the (if join '';'' areas \<noteq> [] then Some (join '';'' areas) else None)))
          else []) = areas"
proof (cases "join '';'' areas = []")
  case True
  with assms(1) join_eq_Nil [of areas] show ?thesis
    by (auto simp: truthy_def)
next
  case False
  then have ne: "areas \<noteq> []" by auto
  from assms(2) have "\<forall>a \<in> set areas. CHR '';'' \<notin> set a" and t: "\<forall>a \<in> set areas. trimmed a"
    by (simp_all add: list_all_iff clean_area_def clean_text_def)
  with ne have "split CHR '';'' (join '';'' areas) = areas"
    using split_join [of areas "CHR '';''"] by simp
  moreover from t have "map trim areas = areas"
    by (simp add: map_idI trimmed_trim)
  ultimately show ?thesis using False by (simp add: truthy_def)
qed

lemma label_field:
  "or_else (Some (lead_status_text st)) d = lead_status_text st"
  "or_else (Some (lead_source_text src)) d = lead_source_text src"
  by (cases st; simp add: or_else_def truthy_def) (cases src; simp add: or_else_def truthy_def)

lemma label_in:
  "lead_status_in (lead_status_text st) = Some st"
  "lead_source_in (lead_source_text src) = Some src"
  by (cases st; simp add: lead_status_in_def) (cases src; simp add: lead_source_in_def)

lemma col_in_nullable:
  assumes "\<And>x. v = Some x \<Longrightarrow> conv x = Some x"
  shows "col_in conv e (nullable v) keep = Inr v"
  using assms by (cases v) (simp_all add: nullable_def)

lemma nullable_Some: "nullable (Some x) = Val x"
  by (simp add: nullable_def)

lemma col_set_nullable: "col_set (nullable v) keep = v"
  by (cases v) (simp_all add: nullable_def)

lemma rowData_text:
  assumes "\<And>s. v = Some s \<Longrightarrow> clean_cell s"
  shows "(if opt_text v \<noteq> [] then Some (opt_text v) else None) = v"
  using assms by (cases v) (auto simp: opt_text_def clean_cell_def)

lemma rowData_number:
  assumes "\<And>x. v = Some x \<Longrightarrow> plain_cell (number_text rt x)"
  shows "(if opt_number rt v \<noteq> [] then Some (opt_number rt v) else None) = map_option (number_text rt) v"
  using assms by (cases v) (auto simp: opt_number_def plain_cell_def clean_cell_def)

lemma rowData_of_export:
  assumes "round_trip_lead rt bl"
  defines "rowData \<equiv> build_rowData export_headers (row_values rt bl) Map.empty"
  shows "rowData ''first_name'' = first_name bl"
    and "rowData ''last_name'' = last_name bl"
    and "rowData ''email'' = email bl"
    and "rowData ''phone'' = phone bl"
    and "rowData ''budget_min'' = map_option (number_text rt) (budget_min bl)"
    and "rowData ''budget_max'' = map_option (number_text rt) (budget_max bl)"
    and "rowData ''preferred_areas'' =
           (if join '';'' (the (preferred_areas bl)) \<noteq> []
            then Some (join '';'' (the (preferred_areas bl))) else None)"
    and "rowData ''property_type'' = property_type bl"
    and "rowData ''bedrooms'' = map_option (\<lambda>n. number_text rt (of_int n)) (bedrooms bl)"
    and "rowData ''bathrooms'' = map_option (number_text rt) (bathrooms bl)"
    and "rowData ''status'' = map_option lead_status_text (status bl)"
    and "rowData ''source'' = map_option lead_source_text (source bl)"
    and "rowData ''priority'' = map_option (\<lambda>n. number_text rt (of_int n)) (priority bl)"
    and "rowData ''notes'' = bl_notes bl"
proof -
  from assms(1) obtain fn ln em areas st src p where f:
    "first_name bl = Some fn" "clean_cell fn"
    "last_name bl = Some ln" "clean_cell ln"
    "email bl = Some em" "clean_cell em" "zod_email rt em"
    "preferred_areas bl = Some areas" "areas \<noteq> [[]]" "list_all clean_area areas"
    "status bl = Some st" "source bl = Some src"
    "priority bl = Some p" "round_trip_integer rt p" "1 \<le> p" "p \<le> 5"
    by (rule round_trip_leadE)
  note o = round_trip_lead_optional [OF assms(1)]
  have L: "\<And>i. i < 15 \<Longrightarrow> rowData (export_headers ! i) =
             (if row_values rt bl ! i \<noteq> [] then Some (row_values rt bl ! i) else None)"
    unfolding rowData_def
    by (subst build_rowData_lookup) (simp_all add: export_headers_def row_values_def)
  have ne: "lead_status_text st \<noteq> []" "lead_source_text src \<noteq> []"
    by (cases st; simp) (cases src; simp)
  from f(14) have pn: "number_text rt (of_int p) \<noteq> []"
    by (simp add: round_trip_integer_def plain_cell_def clean_cell_def)
  have H: "export_headers ! 0 = ''first_name''" "export_headers ! 1 = ''last_name''"
    "export_headers ! 2 = ''email''" "export_headers ! 3 = ''phone''"
    "export_headers ! 4 = ''budget_min''" "export_headers ! 5 = ''budget_max''"
    "export_headers ! 6 = ''preferred_areas''" "export_headers ! 7 = ''property_type''"
    "export_headers ! 8 = ''bedrooms''" "export_headers ! 9 = ''bathrooms''"
    "export_headers ! 10 = ''status''" "export_headers ! 11 = ''source''"
    "export_headers ! 12 = ''priority''" "export_headers ! 13 = ''notes''"
    by (simp_all add: export_headers_def)
  have R: "row_values rt bl ! 0 = opt_text (first_name bl)"
    "row_values rt bl ! 1 = opt_text (last_name bl)"
    "row_values rt bl ! 2 = opt_text (email bl)"
    "row_values rt bl ! 3 = opt_text (phone bl)"
    "row_values rt bl ! 4 = opt_number rt (budget_min bl)"
    "row_values rt bl ! 5 = opt_number rt (budget_max bl)"
    "row_values rt bl ! 6 = join '';'' (the (preferred_areas bl))"
    "row_values rt bl ! 7 = opt_text (property_type bl)"
    "row_values rt bl ! 8 = opt_number rt (map_option of_int (bedrooms bl))"
    "row_values rt bl ! 9 = opt_number rt (bathrooms bl)"
    "row_values rt bl ! 10 = opt_text (map_option lead_status_text (status bl))"
    "row_values rt bl ! 11 = opt_text (map_option lead_source_text (source bl))"
    "row_values rt bl ! 12 = opt_number rt (map_option of_int (priority bl))"
    "row_values rt bl ! 13 = opt_text (bl_notes bl)"
    by (simp_all add: row_values_def)
  have T: "\<And>v. (\<And>s. v = Some s \<Longrightarrow> clean_cell s) \<Longrightarrow>
             (if opt_text v \<noteq> [] then Some (opt_text v) else None) = v"
    by (rule rowData_text)
  have N: "\<And>v. (\<And>x. v = Some x \<Longrightarrow> plain_cell (number_text rt x)) \<Longrightarrow>
             (if opt_number rt v \<noteq> [] then Some (opt_number rt v) else None)
               = map_option (number_text rt) v"
    by (rule rowData_number)
  have t: "(if opt_text (first_name bl) \<noteq> [] then Some (opt_text (first_name bl)) else None) = first_name bl"
    "(if opt_text (last_name bl) \<noteq> [] then Some (opt_text (last_name bl)) else None) = last_name bl"
    "(if opt_text (email bl) \<noteq> [] then Some (opt_text (email bl)) else None) = email bl"
    "(if opt_text (phone bl) \<noteq> [] then Some (opt_text (phone bl)) else None) = phone bl"
    "(if opt_text (property_type bl) \<noteq> [] then Some (opt_text (property_type bl)) else None) = property_type bl"
    "(if opt_text (bl_notes bl) \<noteq> [] then Some (opt_text (bl_notes bl)) else None) = bl_notes bl"
    by (rule T, simp add: f)+ (rule T, erule o(1), rule T, erule o(2), rule T, erule o(3))
  have n: "(if opt_number rt (budget_min bl) \<noteq> [] then Some (opt_number rt (budget_min bl)) else None)
             = map_option (number_text rt) (budget_min bl)"
    "(if opt_number rt (budget_max bl) \<noteq> [] then Some (opt_number rt (budget_max bl)) else None)
             = map_option (number_text rt) (budget_max bl)"
    "(if opt_number rt (bathrooms bl) \<noteq> [] then Some (opt_number rt (bathrooms bl)) else None)
             = map_option (number_text rt) (bathrooms bl)"
    by (rule N, simp add: o(4) [unfolded round_trip_number_def],
        rule N, simp add: o(5) [unfolded round_trip_number_def],
        rule N, simp add: o(6) [unfolded round_trip_number_def])
  have i: "(if opt_number rt (map_option of_int (bedrooms bl)) \<noteq> []
            then Some (opt_number rt (map_option of_int (bedrooms bl))) else None)
             = map_option (\<lambda>n. number_text rt (of_int n)) (bedrooms bl)"
    "(if opt_number rt (map_option of_int (priority bl)) \<noteq> []
            then Some (opt_number rt (map_option of_int (priority bl))) else None)
             = map_option (\<lambda>n. number_text rt (of_int n)) (priority bl)"
    using o(7) f(13,14)
    by (auto simp: opt_number_def round_trip_integer_def plain_cell_def clean_cell_def
          split: option.splits)
  have l: "(if opt_text (map_option lead_status_text (status bl)) \<noteq> []
            then Some (opt_text (map_option lead_status_text (status bl))) else None)
             = map_option lead_status_text (status bl)"
    "(if opt_text (map_option lead_source_text (source bl)) \<noteq> []
            then Some (opt_text (map_option lead_source_text (source bl))) else None)
             = map_option lead_source_text (source bl)"
    using f(11,12) ne by (simp_all add: opt_text_def)
  from L [of 0] show "rowData ''first_name'' = first_name bl" unfolding H R t by simp
  from L [of 1] show "rowData ''last_name'' = last_name bl" unfolding H R t by simp
  from L [of 2] show "rowData ''email'' = email bl" unfolding H R t by simp
  from L [of 3] show "rowData ''phone'' = phone bl" unfolding H R t by simp
  from L [of 4] show "rowData ''budget_min'' = map_option (number_text rt) (budget_min bl)"
    unfolding H R n by simp
  from L [of 5] show "rowData ''budget_max'' = map_option (number_text rt) (budget_max bl)"
    unfolding H R n by simp
  from L [of 6] show "rowData ''preferred_areas'' =
           (if join '';'' (the (preferred_areas bl)) \<noteq> []
            then Some (join '';'' (the (preferred_areas bl))) else None)"
    unfolding H R by simp
  from L [of 7] show "rowData ''property_type'' = property_type bl" unfolding H R t by simp
  from L [of 8] show "rowData ''bedrooms'' = map_option (\<lambda>n. number_text rt (of_int n)) (bedrooms bl)"
    unfolding H R i by simp
  from L [of 9] show "rowData ''bathrooms'' = map_option (number_text rt) (bathrooms bl)"
    unfolding H R n by simp
  from L [of 10] show "rowData ''status'' = map_option lead_status_text (status bl)"
    unfolding H R l by simp
  from L [of 11] show "rowData ''source'' = map_option lead_source_text (source bl)"
    unfolding H R l by simp
  from L [of 12] show "rowData ''priority'' = map_option (\<lambda>n. number_text rt (of_int n)) (priority bl)"
    unfolding H R i by simp
  from L [of 13] show "rowData ''notes'' = bl_notes bl" unfolding H R t by simp
qed

lemma import_export_line:
  assumes "round_trip_lead rt bl"
    and "get_user_role (profiles db) (Some user_id) \<in> {Some Admin, Some Agent}"
  shows "\<exists>new. import_row rt now user_id export_headers (export_line rt bl) db
                 = Inr (db\<lparr>buyer_leads := buyer_leads db @ [new]\<rparr>) \<and>
               exported_fields new = exported_fields bl"
proof -
  from assms(1) obtain fn ln em areas st src p where f:
    "first_name bl = Some fn" "clean_cell fn"
    "last_name bl = Some ln" "clean_cell ln"
    "email bl = Some em" "clean_cell em" "zod_email rt em"
    "preferred_areas bl = Some areas" "areas \<noteq> [[]]" "list_all clean_area areas"
    "status bl = Some st" "source bl = Some src"
    "priority bl = Some p" "round_trip_integer rt p" "1 \<le> p" "p \<le> 5"
    by (rule round_trip_leadE)
  note o = round_trip_lead_optional [OF assms(1)]
  define rowData where "rowData = build_rowData export_headers (row_values rt bl) Map.empty"
  note r = rowData_of_export [OF assms(1), folded rowData_def]
  define v where "v =
    \<lparr>v_first_name = fn, v_last_name = ln, v_email = em, v_phone = phone bl,
     v_budget_min = map_option (number_text rt) (budget_min bl),
     v_budget_max = map_option (number_text rt) (budget_max bl),
     v_preferred_areas = (if join '';'' areas \<noteq> [] then Some (join '';'' areas) else None),
     v_property_type = property_type bl,
     v_bedrooms = map_option (\<lambda>n. number_text rt (of_int n)) (bedrooms bl),
     v_bathrooms = map_option (number_text rt) (bathrooms bl),
     v_status = Some (lead_status_text st), v_source = Some (lead_source_text src),
     v_priority = Some (number_text rt (of_int p)), v_notes = bl_notes bl\<rparr>"
  have V: "csvImportSchema_parse (zod_email rt) rowData = Inr v"
    using f by (simp add: csvImportSchema_parse_def Let_def string_min1_def string_email_def
        clean_cell_def r v_def)
  define ld where "ld =
    \<lparr>ld_first_name = fn, ld_last_name = ln, ld_email = em, ld_phone = phone bl,
     ld_budget_min = budget_min bl, ld_budget_max = budget_max bl,
     ld_preferred_areas = areas, ld_property_type = property_type bl,
     ld_bedrooms = bedrooms bl, ld_bathrooms = bathrooms bl,
     ld_status = lead_status_text st, ld_source = lead_source_text src,
     ld_priority = Some p, ld_notes = bl_notes bl, ld_created_by = user_id\<rparr>"
  have n1: "(if truthy (map_option (number_text rt) (budget_min bl))
          then parseFloat rt (the (map_option (number_text rt) (budget_min bl))) else None) = budget_min bl"
    by (rule float_field) (simp add: o(4))
  have n2: "(if truthy (map_option (number_text rt) (budget_max bl))
          then parseFloat rt (the (map_option (number_text rt) (budget_max bl))) else None) = budget_max bl"
    by (rule float_field) (simp add: o(5))
  have n3: "(if truthy (map_option (number_text rt) (bathrooms bl))
          then parseFloat rt (the (map_option (number_text rt) (bathrooms bl))) else None) = bathrooms bl"
    by (rule float_field) (simp add: o(6))
  have n4: "(if truthy (map_option (\<lambda>n. number_text rt (of_int n)) (bedrooms bl))
          then parseInt (the (map_option (\<lambda>n. number_text rt (of_int n)) (bedrooms bl))) else None)
         = bedrooms bl"
    using int_field [of "bedrooms bl" rt None] o(7) by (simp split: option.splits)
  have n5: "(if truthy (Some (number_text rt (of_int p)))
          then parseInt (the (Some (number_text rt (of_int p)))) else Some 3) = Some p"
    using f(14) by (simp add: truthy_def round_trip_integer_def plain_cell_def clean_cell_def)
  have t1: "or_null (phone bl) = phone bl" by (rule or_null_clean) (rule o(1))
  have t2: "or_null (property_type bl) = property_type bl" by (rule or_null_clean) (rule o(2))
  have t3: "or_null (bl_notes bl) = bl_notes bl" by (rule or_null_clean) (rule o(3))
  have LD: "make_leadData rt user_id v = ld"
    unfolding make_leadData_def v_def ld_def
    by (simp only: CSVImportData.select_convs n1 n2 n3 n4 n5 t1 t2 t3 label_field
          areas_field [OF f(9,10)])
  define new where "new =
    \<lparr>bl_id = gen_random_uuid (buyer_leads db), created_by = Some user_id, assigned_to = None,
     first_name = Some fn, last_name = Some ln, email = Some em, phone = phone bl,
     budget_min = budget_min bl, budget_max = budget_max bl, preferred_areas = Some areas,
     property_type = property_type bl, bedrooms = bedrooms bl, bathrooms = bathrooms bl,
     status = Some st, source = Some src, priority = Some p, bl_notes = bl_notes bl,
     last_contacted = None, next_follow_up = None, created_at = Some now,
     updated_at = Some now\<rparr>"
  have c1: "col_in (numeric_in 12 2) Numeric_field_overflow (nullable (budget_min bl)) None = Inr (budget_min bl)"
    by (rule col_in_nullable) (erule o(4) [THEN conjunct2])
  have c2: "col_in (numeric_in 12 2) Numeric_field_overflow (nullable (budget_max bl)) None = Inr (budget_max bl)"
    by (rule col_in_nullable) (erule o(5) [THEN conjunct2])
  have c3: "col_in (numeric_in 3 1) Numeric_field_overflow (nullable (bathrooms bl)) None = Inr (bathrooms bl)"
    by (rule col_in_nullable) (erule o(6) [THEN conjunct2])
  have c4: "col_in int4_in Integer_out_of_range (nullable (bedrooms bl)) None = Inr (bedrooms bl)"
    by (rule col_in_nullable) (erule o(7) [THEN conjunct2])
  have c5: "int4_in p = Some p"
    using f(15,16) by (simp add: int4_in_def)
  have A: "assign_columns (insert_request ld) (default_row (gen_random_uuid (buyer_leads db)) now)
             = Inr new"
    unfolding assign_columns_def insert_request_def ld_def default_row_def new_def
    by (simp add: c1 c2 c3 [unfolded One_nat_def] c4 c5 label_in col_set_nullable nullable_Some)
  have C: "check_constraints new = None"
    using f(15,16) by (simp add: check_constraints_def priority_check_iff new_def)
  have I: "insert_buyer_lead (Some user_id) now (insert_request ld) db
             = Inr (db\<lparr>buyer_leads := buyer_leads db @ [new]\<rparr>)"
    using assms(2) by (simp add: insert_buyer_lead_def A C lead_insert_allowed_iff)
  have "import_row rt now user_id export_headers (export_line rt bl) db
          = Inr (db\<lparr>buyer_leads := buyer_leads db @ [new]\<rparr>)"
    by (simp add: import_row_def import_values_def parse_export_line [OF assms(1)]
          rowData_def [symmetric] V LD I)
  moreover have "exported_fields new = exported_fields bl"
    using f by (simp add: exported_fields_def new_def)
  ultimately show ?thesis by blast
qed

lemma trim_eq_Nil:
  assumes "trim l = []"
  shows "\<forall>c \<in> set l. is_space c"
proof -
  from assms have "dropWhile is_space (rev (dropWhile is_space l)) = []"
    by (simp add: trim_def)
  then have "\<forall>c \<in> set (dropWhile is_space l). is_space c"
    by (simp add: dropWhile_eq_Nil_conv)
  then have "dropWhile is_space l = []"
  proof -
    assume all: "\<forall>c \<in> set (dropWhile is_space l). is_space c"
    show ?thesis
    proof (rule ccontr)
      assume ne: "dropWhile is_space l \<noteq> []"
      then have "\<not> is_space (hd (dropWhile is_space l))" by (rule hd_dropWhile)
      moreover from ne have "hd (dropWhile is_space l) \<in> set (dropWhile is_space l)" by simp
      ultimately show False using all by blast
    qed
  qed
  then show ?thesis
    by (simp add: dropWhile_eq_Nil_conv)
qed

lemma set_join_first: "set x \<subseteq> set (join sep (x # xs))"
  by (cases xs) auto

lemma export_line_nonblank:
  assumes "round_trip_lead rt bl"
  shows "trim (export_line rt bl) \<noteq> []"
proof
  assume "trim (export_line rt bl) = []"
  then have a: "\<forall>c \<in> set (export_line rt bl). is_space c"
    by (rule trim_eq_Nil)
  from assms obtain fn where f: "first_name bl = Some fn" "clean_cell fn"
    by (auto elim: round_trip_leadE)
  then have "fn \<noteq> []" "\<not> is_space (hd fn)"
    by (auto simp: clean_cell_def clean_text_def trimmed_def)
  then have "hd fn \<in> set (to_text rt (cell_value ''first_name'' (lead_property rt bl ''first_name'')))"
    using f(1) by (simp add: lead_property_def js_string_def cell_value_def to_text_def)
  moreover have "set (to_text rt (cell_value ''first_name'' (lead_property rt bl ''first_name'')))
                   \<subseteq> set (export_line rt bl)"
    unfolding export_line_def export_headers_def list.map by (rule set_join_first)
  ultimately have "hd fn \<in> set (export_line rt bl)" by blast
  with a \<open>\<not> is_space (hd fn)\<close> show False by blast
qed

lemma list_all2_set1:
  "list_all2 P xs ys \<Longrightarrow> x \<in> set xs \<Longrightarrow> \<exists>y \<in> set ys. P x y"
  by (induction rule: list_all2_induct) auto

lemma encodes_avoids:
  assumes "encodes cell s" and "c \<notin> set s" and "c \<noteq> dquote"
  shows "c \<notin> set cell"
  using assms by (auto simp: encodes_def)

lemma opt_text_newline: "(\<And>s. v = Some s \<Longrightarrow> newline \<notin> set s) \<Longrightarrow> newline \<notin> set (opt_text v)"
  by (cases v) (simp_all add: opt_text_def)

lemma opt_number_newline:
  "(\<And>x. v = Some x \<Longrightarrow> plain_cell (number_text rt x)) \<Longrightarrow> newline \<notin> set (opt_number rt v)"
  by (cases v) (simp_all add: opt_number_def plain_cell_def clean_cell_def clean_text_def)

lemma clean_cell_newline: "clean_cell s \<Longrightarrow> newline \<notin> set s"
  by (simp add: clean_cell_def clean_text_def)

lemma label_newline:
  "newline \<notin> set (lead_status_text st)" "newline \<notin> set (lead_source_text src)"
  by (cases st; simp add: newline_def) (cases src; simp add: newline_def)

lemma export_line_newline:
  assumes "round_trip_lead rt bl"
  shows "newline \<notin> set (export_line rt bl)"
proof -
  from assms obtain fn ln em areas st src p where f:
    "first_name bl = Some fn" "clean_cell fn"
    "last_name bl = Some ln" "clean_cell ln"
    "email bl = Some em" "clean_cell em" "zod_email rt em"
    "preferred_areas bl = Some areas" "areas \<noteq> [[]]" "list_all clean_area areas"
    "status bl = Some st" "source bl = Some src"
    "priority bl = Some p" "round_trip_integer rt p" "1 \<le> p" "p \<le> 5"
    by (rule round_trip_leadE)
  note o = round_trip_lead_optional [OF assms]
  let ?vals = "[opt_text (first_name bl), opt_text (last_name bl), opt_text (email bl),
            opt_text (phone bl), opt_number rt (budget_min bl), opt_number rt (budget_max bl),
            join '';'' (the (preferred_areas bl)), opt_text (property_type bl),
            opt_number rt (map_option of_int (bedrooms bl)), opt_number rt (bathrooms bl),
            opt_text (map_option lead_status_text (status bl)),
            opt_text (map_option lead_source_text (source bl)),
            opt_number rt (map_option of_int (priority bl)), opt_text (bl_notes bl),
            opt_text (map_option (timestamp_text rt) (created_at bl))]"
  let ?cells = "map (\<lambda>header. to_text rt (cell_value header (lead_property rt bl header))) export_headers"
  have t: "newline \<notin> set (opt_text (first_name bl))" "newline \<notin> set (opt_text (last_name bl))"
    "newline \<notin> set (opt_text (email bl))" "newline \<notin> set (opt_text (phone bl))"
    "newline \<notin> set (opt_text (property_type bl))" "newline \<notin> set (opt_text (bl_notes bl))"
    using f o(1,2,3) by (auto intro!: opt_text_newline simp: clean_cell_newline)
  have n: "newline \<notin> set (opt_number rt (budget_min bl))" "newline \<notin> set (opt_number rt (budget_max bl))"
    "newline \<notin> set (opt_number rt (bathrooms bl))"
    "newline \<notin> set (opt_number rt (map_option of_int (bedrooms bl)))"
    "newline \<notin> set (opt_number rt (map_option of_int (priority bl)))"
    using o(4,5,6,7) f(13,14)
    by (auto intro!: opt_number_newline simp: round_trip_number_def round_trip_integer_def)
  have l: "newline \<notin> set (opt_text (map_option lead_status_text (status bl)))"
    "newline \<notin> set (opt_text (map_option lead_source_text (source bl)))"
    "newline \<notin> set (opt_text (map_option (timestamp_text rt) (created_at bl)))"
    using o(8) by (auto intro!: opt_text_newline simp: label_newline)
  from f(10) have "\<forall>a \<in> set areas. newline \<notin> set a"
    by (simp add: list_all_iff clean_area_def clean_text_def)
  then have a: "newline \<notin> set (join '';'' (the (preferred_areas bl)))"
    using f(8) by (simp add: join_avoids newline_def)
  have v: "\<forall>s \<in> set ?vals. newline \<notin> set s"
    using t n l a by simp
  have "\<forall>cell \<in> set ?cells. newline \<notin> set cell"
  proof
    fix cell assume "cell \<in> set ?cells"
    with list_all2_set1 [OF export_cells [OF assms]] obtain s where "s \<in> set ?vals" "encodes cell s"
      by blast
    with v have "encodes cell s" "newline \<notin> set s" by blast+
    moreover have "newline \<noteq> dquote" by (simp add: newline_def dquote_def)
    ultimately show "newline \<notin> set cell" by (rule encodes_avoids)
  qed
  then show ?thesis
    unfolding export_line_def by (rule join_avoids) (simp add: newline_def)
qed

lemma export_header_line:
  "newline \<notin> set (join '','' export_headers)" "trim (join '','' export_headers) \<noteq> []"
  "csv_headers (join '','' export_headers # dataLines) = export_headers"
  by (simp_all add: export_headers_def newline_def trim_def is_space_def csv_headers_def
        parseCsvLine_def dquote_def toLowerCase_def lower_char_def)

lemma import_loop_export:
  assumes "list_all (round_trip_lead rt) leads"
    and "get_user_role (profiles db) (Some user_id) \<in> {Some Admin, Some Agent}"
  shows "\<exists>new. import_loop rt clock user_id export_headers (map (export_line rt) leads) i
                 successCount errs db
               = (successCount + length leads, errs, db\<lparr>buyer_leads := buyer_leads db @ new\<rparr>) \<and>
               map exported_fields new = map exported_fields leads"
  using assms
proof (induction leads arbitrary: i successCount db)
  case Nil
  then show ?case by simp
next
  case (Cons bl leads)
  from Cons.prems(1) have b: "round_trip_lead rt bl" and r: "list_all (round_trip_lead rt) leads"
    by simp_all
  from import_export_line [OF b Cons.prems(2), of "clock i"] obtain n where
    n: "import_row rt (clock i) user_id export_headers (export_line rt bl) db
          = Inr (db\<lparr>buyer_leads := buyer_leads db @ [n]\<rparr>)"
    and e: "exported_fields n = exported_fields bl"
    by blast
  let ?db = "db\<lparr>buyer_leads := buyer_leads db @ [n]\<rparr>"
  from Cons.prems(2) have "get_user_role (profiles ?db) (Some user_id) \<in> {Some Admin, Some Agent}"
    by simp
  from Cons.IH [OF r this, of "i + 1" "successCount + 1"] obtain new where
    l: "import_loop rt clock user_id export_headers (map (export_line rt) leads) (i + 1)
          (successCount + 1) errs ?db
        = (successCount + 1 + length leads, errs, ?db\<lparr>buyer_leads := buyer_leads ?db @ new\<rparr>)"
    and m: "map exported_fields new = map exported_fields leads"
    by blast
  have "import_loop rt clock user_id export_headers (map (export_line rt) (bl # leads)) i
          successCount errs db
        = (successCount + length (bl # leads), errs, db\<lparr>buyer_leads := buyer_leads db @ (n # new)\<rparr>)"
    using export_line_nonblank [OF b] n l by simp
  moreover have "map exported_fields (n # new) = map exported_fields (bl # leads)"
    using e m by simp
  ultimately show ?case by blast
qed

lemma csv_lines_export:
  assumes "list_all (round_trip_lead rt) leads"
  shows "csv_lines (csvContent rt leads) = join '','' export_headers # map (export_line rt) leads"
proof -
  let ?lines = "join '','' export_headers # map (export_line rt) leads"
  from assms have n: "\<forall>l \<in> set ?lines. newline \<notin> set l"
    by (auto simp: list_all_iff export_header_line export_line_newline)
  from assms have b: "\<forall>l \<in> set ?lines. trim l \<noteq> []"
    by (auto simp: list_all_iff export_header_line export_line_nonblank)
  have "split newline (csvContent rt leads) = ?lines"
    unfolding csvContent_def using n by (intro split_join) simp_all
  with b show ?thesis
    by (simp add: csv_lines_def filter_id_conv)
qed

text \<open>
  Claim C3, as the export and the import have it. For a non-empty list of leads that the
  CSV format carries (see \<open>round_trip_lead\<close>) and an importing user whose role is admin or
  agent: the export downloads the CSV text, and importing that text succeeds for every
  row (success = N, no errors, total = N) and appends N leads whose fourteen exported
  columns are those of the originals, in the order of the export.
\<close>

theorem export_import_round_trip:
  assumes "leads \<noteq> []"
    and "list_all (round_trip_lead rt) leads"
    and "get_user_role (profiles db) (Some user_id) \<in> {Some Admin, Some Agent}"
  shows "download (handleExport rt (Inr leads)) = Some (csvContent rt leads) \<and>
         (\<exists>new. handleFileImport rt clock user_id (csvContent rt leads) db =
                   (Import_Result \<lparr>success = length leads, errors = [], total = length leads\<rparr>,
                    db\<lparr>buyer_leads := buyer_leads db @ new\<rparr>) \<and>
                 map exported_fields new = map exported_fields leads)"
proof
  from assms(1) show "download (handleExport rt (Inr leads)) = Some (csvContent rt leads)"
    by (simp add: handleExport_def)
next
  note l = csv_lines_export [OF assms(2)]
  from import_loop_export [OF assms(2,3), of clock 0 0 "[]"] obtain new where
    i: "import_loop rt clock user_id export_headers (map (export_line rt) leads) 0 0 [] db
          = (length leads, [], db\<lparr>buyer_leads := buyer_leads db @ new\<rparr>)"
    and m: "map exported_fields new = map exported_fields leads"
    by auto
  have r: "filter (\<lambda>field. field \<notin> set export_headers) requiredFields = []"
    by (simp add: export_headers_def requiredFields_def)
  from assms(1) have "handleFileImport rt clock user_id (csvContent rt leads) db =
      (Import_Result \<lparr>success = length leads, errors = [], total = length leads\<rparr>,
       db\<lparr>buyer_leads := buyer_leads db @ new\<rparr>)"
    unfolding handleFileImport_def l
    by (simp add: export_header_line r i Let_def less_Suc_eq_0_disj numeral_2_eq_2)
  with m show "\<exists>new. handleFileImport rt clock user_id (csvContent rt leads) db =
                   (Import_Result \<lparr>success = length leads, errors = [], total = length leads\<rparr>,
                    db\<lparr>buyer_leads := buyer_leads db @ new\<rparr>) \<and>
                 map exported_fields new = map exported_fields leads"
    by blast
qed

lemma multiline_csv:
  "csvContent example_runtime [multiline_lead] =
     join [newline] [join '','' export_headers,
       ''John,Doe,john@x.com,,,,,,,,new,website,3,Call after 5pm'',
       ''Prefers e-mail,2025-09-15T11:15:53+00:00'']"
  by (simp add: csvContent_def export_line_def export_headers_def lead_property_def
        multiline_lead_def example_lead_def cell_value_def to_text_def js_string_def
        js_number_def example_runtime_def show_decimal_def Let_def newline_def dquote_def)

lemma multiline_lines:
  "csv_lines (csvContent example_runtime [multiline_lead]) =
     [join '','' export_headers,
      ''John,Doe,john@x.com,,,,,,,,new,website,3,Call after 5pm'',
      ''Prefers e-mail,2025-09-15T11:15:53+00:00'']"
  unfolding multiline_csv
  by (simp add: csv_lines_def export_headers_def newline_def trim_def is_space_def)

lemma multiline_row1:
  "import_row example_runtime now 2 export_headers
     ''John,Doe,john@x.com,,,,,,,,new,website,3,Call after 5pm'' example_db
   = Inr (example_db\<lparr>buyer_leads :=
       [example_lead,
        (example_imported now)\<lparr>source := Some Website, bl_notes := Some ''Call after 5pm''\<rparr>]\<rparr>)"
  by (simp add: import_row_def parseCsvLine_def dquote_def trim_def is_space_def
        import_values_def export_headers_def csvImportSchema_parse_def Let_def string_min1_def
        string_email_def make_leadData_def insert_request_def truthy_def or_null_def or_else_def
        nullable_def insert_buyer_lead_def assign_columns_def default_row_def
        gen_random_uuid_def lead_status_in_def lead_source_in_def int4_in_def
        lead_insert_allowed_iff agent_role check_constraints_def priority_check_iff
        example_db_def example_lead_def example_imported_def example_runtime_def
        parseInt_def round_to_double_def is_digit_def digit_value_def)

lemma multiline_row2:
  "import_row example_runtime now 2 export_headers
     ''Prefers e-mail,2025-09-15T11:15:53+00:00'' db
   = Inl (ZodError [Required ''email''])"
  by (simp add: import_row_def parseCsvLine_def dquote_def trim_def is_space_def
        import_values_def export_headers_def csvImportSchema_parse_def Let_def string_min1_def
        string_email_def)

lemma round_scale_of_int: "round_scale s (of_int n) = of_int n"
proof -
  have "\<lfloor>\<bar>of_int n :: rat\<bar> * 10 ^ s + 1 / 2\<rfloor> = \<bar>n\<bar> * 10 ^ s"
    by (rule floor_unique) simp_all
  then have "round_scale s (of_int n) = sgn (of_int n) * (of_int \<bar>n\<bar> * 10 ^ s) / 10 ^ s"
    by (simp add: round_scale_def)
  also have "\<dots> = sgn (of_int n) * of_int \<bar>n\<bar>"
    by simp
  also have "\<dots> = (of_int n :: rat)"
    by (simp add: sgn_if)
  finally show ?thesis .
qed

lemma numeric_in_whole:
  "\<bar>of_int n :: rat\<bar> < 10 ^ (p - s) \<Longrightarrow> numeric_in p s (of_int n) = Some (of_int n)"
  by (simp add: numeric_in_def round_scale_of_int)

lemma viewer_role: "get_user_role example_profiles (Some 3) = Some Viewer"
  by (simp add: example_profiles_def get_user_role_def is_true_sql_eq)

lemma example_lead_csv:
  "csvContent example_runtime [example_lead] =
     join [newline] [join '','' export_headers,
       ''John,Doe,john@x.com,,,,,,,,new,website,3,,2025-09-15T11:15:53+00:00'']"
  by (simp add: csvContent_def export_line_def export_headers_def lead_property_def
        example_lead_def cell_value_def to_text_def js_string_def
        js_number_def example_runtime_def show_decimal_def Let_def newline_def dquote_def)

lemma example_lead_lines:
  "csv_lines (csvContent example_runtime [example_lead]) =
     [join '','' export_headers,
      ''John,Doe,john@x.com,,,,,,,,new,website,3,,2025-09-15T11:15:53+00:00'']"
  unfolding example_lead_csv
  by (simp add: csv_lines_def export_headers_def newline_def trim_def is_space_def)

lemma viewer_row_denied:
  "import_row example_runtime now 3 export_headers
     ''John,Doe,john@x.com,,,,,,,,new,website,3,,2025-09-15T11:15:53+00:00'' example_db
   = Inl (PostgrestError Row_level_security_violation)"
  by (simp add: import_row_def parseCsvLine_def dquote_def trim_def is_space_def
        import_values_def export_headers_def csvImportSchema_parse_def Let_def string_min1_def
        string_email_def make_leadData_def insert_request_def truthy_def or_null_def or_else_def
        nullable_def insert_buyer_lead_def assign_columns_def default_row_def
        gen_random_uuid_def lead_status_in_def lead_source_in_def int4_in_def
        lead_insert_allowed_iff viewer_role check_constraints_def priority_check_iff
        example_db_def example_lead_def example_runtime_def
        parseInt_def round_to_double_def is_digit_def digit_value_def)

theorem round_trip_counterexample:
  "get_user_role (profiles example_db) (Some 3) = Some Viewer \<and>
   select_buyer_leads (Some 3) example_db = [example_lead] \<and>
   download (handleExport example_runtime (Inr [example_lead]))
     = Some (csvContent example_runtime [example_lead]) \<and>
   handleFileImport example_runtime (\<lambda>i. 100 + i) 3
     (csvContent example_runtime [example_lead]) example_db
   = (Import_Result \<lparr>success = 0,
        errors = [(2, PostgrestError Row_level_security_violation)], total = 1\<rparr>, example_db) \<and>
   bl_notes multiline_lead = Some (''Call after 5pm'' @ [newline] @ ''Prefers e-mail'') \<and>
   handleFileImport example_runtime (\<lambda>i. 100 + i) 2
     (csvContent example_runtime [multiline_lead]) example_db
   = (Import_Result \<lparr>success = 1, errors = [(3, ZodError [Required ''email''])], total = 2\<rparr>,
      example_db\<lparr>buyer_leads :=
        [example_lead,
         (example_imported 100)\<lparr>source := Some Website, bl_notes := Some ''Call after 5pm''\<rparr>]\<rparr>)"
proof -
  have 1: "get_user_role (profiles example_db) (Some 3) = Some Viewer"
    by (simp add: example_db_def viewer_role)
  have 2: "select_buyer_leads (Some 3) example_db = [example_lead]"
    by (simp add: select_buyer_leads_def lead_select_allowed_iff 1)
      (simp add: example_db_def example_lead_def)
  have 3: "handleFileImport example_runtime (\<lambda>i. 100 + i) 3
     (csvContent example_runtime [example_lead]) example_db
   = (Import_Result \<lparr>success = 0,
        errors = [(2, PostgrestError Row_level_security_violation)], total = 1\<rparr>, example_db)"
    unfolding handleFileImport_def example_lead_lines
    by (simp add: export_header_line requiredFields_def viewer_row_denied
          trim_def is_space_def, simp add: export_headers_def)
  have 4: "bl_notes multiline_lead = Some (''Call after 5pm'' @ [newline] @ ''Prefers e-mail'')"
    by (simp add: multiline_lead_def)
  have 5: "handleFileImport example_runtime (\<lambda>i. 100 + i) 2
     (csvContent example_runtime [multiline_lead]) example_db
   = (Import_Result \<lparr>success = 1, errors = [(3, ZodError [Required ''email''])], total = 2\<rparr>,
      example_db\<lparr>buyer_leads :=
        [example_lead,
         (example_imported 100)\<lparr>source := Some Website, bl_notes := Some ''Call after 5pm''\<rparr>]\<rparr>)"
    unfolding handleFileImport_def multiline_lines
    by (simp add: export_header_line requiredFields_def multiline_row1 multiline_row2
          trim_def is_space_def, simp add: export_headers_def)
  from 1 2 3 4 5 show ?thesis
    by (simp add: handleExport_def)
qed

lemma exported_lead_round_trips: "round_trip_lead example_runtime exported_lead"
proof -
  have "numeric_in 12 2 200000 = Some 200000" "numeric_in 12 2 350000 = Some 350000"
    "numeric_in 3 1 2 = Some 2"
    using numeric_in_whole [of 200000 12 2] numeric_in_whole [of 350000 12 2]
      numeric_in_whole [of 2 3 1]
    by simp_all
  then show ?thesis
    by (simp add: round_trip_lead_def exported_lead_def example_runtime_def clean_cell_def
        clean_text_def trimmed_def is_space_def dquote_def newline_def clean_area_def
        round_trip_number_def round_trip_integer_def plain_cell_def show_decimal_def
        read_decimal_def parseInt_def round_to_double_def is_digit_def digit_value_def Let_def int4_in_def)
qed

theorem export_import_round_trip_witness:
  "list_all (round_trip_lead example_runtime) [exported_lead] \<and>
   get_user_role (profiles example_db) (Some 2) = Some Agent \<and>
   download (handleExport example_runtime (Inr [exported_lead]))
     = Some (csvContent example_runtime [exported_lead]) \<and>
   (\<exists>new. handleFileImport example_runtime (\<lambda>i. 100 + i) 2
             (csvContent example_runtime [exported_lead]) example_db
           = (Import_Result \<lparr>success = 1, errors = [], total = 1\<rparr>,
              example_db\<lparr>buyer_leads := [example_lead, new]\<rparr>) \<and>
           exported_fields new = exported_fields exported_lead)"
proof -
  have l: "list_all (round_trip_lead example_runtime) [exported_lead]"
    by (simp add: exported_lead_round_trips)
  have r: "get_user_role (profiles example_db) (Some 2) = Some Agent"
    by (simp add: example_db_def agent_role)
  then have r': "get_user_role (profiles example_db) (Some 2) \<in> {Some Admin, Some Agent}"
    by simp
  from export_import_round_trip [OF _ l r', of "\<lambda>i. 100 + i"]
  obtain new where
    "download (handleExport example_runtime (Inr [exported_lead]))
       = Some (csvContent example_runtime [exported_lead])"
    "handleFileImport example_runtime (\<lambda>i. 100 + i) 2
       (csvContent example_runtime [exported_lead]) example_db
     = (Import_Result \<lparr>success = 1, errors = [], total = 1\<rparr>,
        example_db\<lparr>buyer_leads := buyer_leads example_db @ new\<rparr>)"
    "map exported_fields new = [exported_fields exported_lead]"
    by auto
  moreover from this(3) obtain n where "new = [n]" "exported_fields n = exported_fields exported_lead"
    by auto
  ultimately show ?thesis
    using l r by (auto simp: example_db_def)
qed

end
